theory Spec2Isabelle
  imports Main
begin

unbundle bit_operations_syntax

section \<open>Debug interface of the Sol interpreter (ldebug.c)\<close>

text \<open>
  A shallow embedding of the functions of \<^verbatim>\<open>ldebug.c\<close>. C \<^verbatim>\<open>int\<close>s are modelled as
  \<^typ>\<open>int\<close>; where the source converts between signed and unsigned the conversion is
  written out. A result of type \<^typ>\<open>'a option\<close> is \<open>None\<close> where the C code would read
  outside an array or divide by zero (undefined behaviour). \<^verbatim>\<open>sol_assert\<close> expands to
  nothing in a normal build and is not part of the model.
\<close>

subsection \<open>Constants of the headers\<close>

text \<open>
  The headers of the interpreter are not among the sources verified here, so the values
  of their macros are not fixed: the functions below take them in a record.
  \<^item> \<open>MAXIWTHABS\<close>, \<open>ABSLINEINFO\<close>: line-info constants of \<^verbatim>\<open>ldebug.h\<close>;
  \<^item> \<open>SOL_MASKLINE\<close>, \<open>SOL_MASKCOUNT\<close>: bits of the hook mask, \<^verbatim>\<open>sol.h\<close>.
\<close>

record macros =
  MAXIWTHABS :: int
  ABSLINEINFO :: int
  SOL_MASKLINE :: int
  SOL_MASKCOUNT :: int

text \<open>Conversions of a value to \<^verbatim>\<open>unsigned int\<close> and back to \<^verbatim>\<open>int\<close> (32 bits).\<close>

definition cast_uint :: "int \<Rightarrow> int" where
  "cast_uint x = x mod 2 ^ 32"

definition cast_int :: "int \<Rightarrow> int" where
  "cast_int x = (let u = x mod 2 ^ 32 in if u < 2 ^ 31 then u else u - 2 ^ 32)"

text \<open>
  Modelled from the spec: the macro \<^verbatim>\<open>cast_byte\<close> (\<^verbatim>\<open>llimits.h\<close>) is missing. The hook mask
  is a byte (\<^verbatim>\<open>lu_byte mask = L->hookmask\<close> in \<^verbatim>\<open>solG_traceexec\<close>), and the conversion of
  an \<^verbatim>\<open>int\<close> to an unsigned byte keeps its low eight bits.
\<close>

definition cast_byte :: "int \<Rightarrow> int" where
  "cast_byte x = x mod 256"

text \<open>Division of C \<^verbatim>\<open>int\<close>s truncates towards zero.\<close>

definition c_div :: "int \<Rightarrow> int \<Rightarrow> int" where
  "c_div a b = sgn a * sgn b * (\<bar>a\<bar> div \<bar>b\<bar>)"

subsection \<open>Instructions and prototypes\<close>

text \<open>
  The opcodes that \<^verbatim>\<open>ldebug.c\<close> names; every other opcode of \<^verbatim>\<open>lopcodes.h\<close> is
  \<open>OP_OTHER n\<close>.
\<close>

datatype OpCode =
    OP_MOVE | OP_LOADK | OP_LOADKX | OP_LOADNIL | OP_GETUPVAL
  | OP_GETTABUP | OP_GETTABLE | OP_GETI | OP_GETFIELD
  | OP_SETTABUP | OP_SETTABLE | OP_SETI | OP_SETFIELD
  | OP_SELF | OP_MMBIN | OP_MMBINI | OP_MMBINK
  | OP_UNM | OP_BNOT | OP_LEN | OP_CONCAT | OP_CLOSE | OP_JMP
  | OP_EQ | OP_LT | OP_LE | OP_LTI | OP_LEI | OP_GTI | OP_GEI
  | OP_CALL | OP_TAILCALL | OP_RETURN | OP_TFORCALL | OP_VARARGPREP
  | OP_OTHER nat

text \<open>
  Modelled from the spec: the instruction word and its accessors \<^verbatim>\<open>GET_OPCODE\<close>,
  \<^verbatim>\<open>GETARG_A\<close>, \<^verbatim>\<open>GETARG_B\<close>, \<^verbatim>\<open>GETARG_sJ\<close> (\<^verbatim>\<open>lopcodes.h\<close>) are missing; an instruction
  is a tagged opcode with named operand fields.
\<close>

record Instruction =
  GET_OPCODE :: OpCode
  GETARG_A :: int
  GETARG_B :: int
  GETARG_C :: int
  GETARG_sJ :: int

record AbsLineInfo =
  abs_pc :: int
  abs_line :: int

text \<open>
  \<open>lineinfo\<close> is \<open>None\<close> for the \<^verbatim>\<open>NULL\<close> pointer of a prototype without debug
  information; \<open>sizecode\<close>, \<open>sizelineinfo\<close> and \<open>sizeabslineinfo\<close> are the lengths of
  the lists.
\<close>

record Proto =
  code :: "Instruction list"
  lineinfo :: "int list option"
  abslineinfo :: "AbsLineInfo list"
  linedefined :: int
  lastlinedefined :: int
  is_vararg :: bool
  numparams :: int
  source :: "string option"

definition sizecode :: "Proto \<Rightarrow> int" where
  "sizecode p = int (length (code p))"

definition sizeabslineinfo :: "Proto \<Rightarrow> int" where
  "sizeabslineinfo p = int (length (abslineinfo p))"

text \<open>An array read: \<open>None\<close> outside the array.\<close>

definition rd :: "'a list \<Rightarrow> int \<Rightarrow> 'a option" where
  "rd xs i = (if 0 \<le> i \<and> i < int (length xs) then Some (xs ! nat i) else None)"

subsection \<open>Line information\<close>

text \<open>
  The loop of \<^verbatim>\<open>getbaseline\<close>:
  \<^verbatim>\<open>while (i + 1 < f->sizeabslineinfo && pc >= f->abslineinfo[i + 1].pc) i++;\<close>
\<close>

function getbaseline_adjust :: "AbsLineInfo list \<Rightarrow> int \<Rightarrow> int \<Rightarrow> int option" where
  "getbaseline_adjust ab pc i =
     (if i + 1 < int (length ab) then
        (case rd ab (i + 1) of
           None \<Rightarrow> None
         | Some e \<Rightarrow> if pc \<ge> abs_pc e then getbaseline_adjust ab pc (i + 1) else Some i)
      else Some i)"
  by pat_completeness auto
termination
  by (relation "measure (\<lambda>(ab, pc, i). nat (int (length ab) - i))") auto

declare getbaseline_adjust.simps [simp del]

text \<open>\<^verbatim>\<open>getbaseline\<close> returns the pair \<open>(baseline, basepc)\<close>.\<close>

definition getbaseline :: "macros \<Rightarrow> Proto \<Rightarrow> int \<Rightarrow> (int \<times> int) option" where
  "getbaseline K f pc =
     (if sizeabslineinfo f = 0 then Some (linedefined f, -1)
      else case rd (abslineinfo f) 0 of
        None \<Rightarrow> None
      | Some e0 \<Rightarrow>
          if pc < abs_pc e0 then Some (linedefined f, -1)
          else if cast_uint (MAXIWTHABS K) = 0 then None
          else
            (case getbaseline_adjust (abslineinfo f) pc
                    (cast_int (cast_uint pc div cast_uint (MAXIWTHABS K) - 1)) of
               None \<Rightarrow> None
             | Some i \<Rightarrow>
                 (case rd (abslineinfo f) i of
                    None \<Rightarrow> None
                  | Some e \<Rightarrow> Some (abs_line e, abs_pc e))))"

text \<open>
  The loop of \<^verbatim>\<open>solG_getfuncline\<close>:
  \<^verbatim>\<open>while (basepc++ < pc) baseline += f->lineinfo[basepc];\<close>
\<close>

function getfuncline_walk :: "int list \<Rightarrow> int \<Rightarrow> int \<Rightarrow> int \<Rightarrow> int option" where
  "getfuncline_walk li basepc pc baseline =
     (if basepc < pc then
        (case rd li (basepc + 1) of
           None \<Rightarrow> None
         | Some d \<Rightarrow> getfuncline_walk li (basepc + 1) pc (baseline + d))
      else Some baseline)"
  by pat_completeness auto
termination
  by (relation "measure (\<lambda>(li, basepc, pc, baseline). nat (pc - basepc))") auto

declare getfuncline_walk.simps [simp del]

definition solG_getfuncline :: "macros \<Rightarrow> Proto \<Rightarrow> int \<Rightarrow> int option" where
  "solG_getfuncline K f pc =
     (case lineinfo f of
        None \<Rightarrow> Some (- 1)
      | Some li \<Rightarrow>
          (case getbaseline K f pc of
             None \<Rightarrow> None
           | Some (baseline, basepc) \<Rightarrow> getfuncline_walk li basepc pc baseline))"

text \<open>
  The loop of \<^verbatim>\<open>changedline\<close>; \<open>None\<close> is an out-of-range read, \<open>Some None\<close> the
  \<^verbatim>\<open>break\<close> at an \<open>ABSLINEINFO\<close> entry and \<open>Some (Some b)\<close> the \<^verbatim>\<open>return\<close> inside
  the loop.
\<close>

function changedline_loop ::
  "macros \<Rightarrow> int list \<Rightarrow> int \<Rightarrow> int \<Rightarrow> int \<Rightarrow> bool option option" where
  "changedline_loop K li pc newpc delta =
     (case rd li (pc + 1) of
        None \<Rightarrow> None
      | Some l \<Rightarrow>
          if l = ABSLINEINFO K then Some None
          else if pc + 1 = newpc then Some (Some (delta + l \<noteq> 0))
          else changedline_loop K li (pc + 1) newpc (delta + l))"
  by pat_completeness auto
termination
  by (relation "measure (\<lambda>(K, li, pc, newpc, delta). nat (int (length li) - pc))")
     (auto simp: rd_def split: if_splits)

declare changedline_loop.simps [simp del]

definition changedline_slow :: "macros \<Rightarrow> Proto \<Rightarrow> int \<Rightarrow> int \<Rightarrow> bool option" where
  "changedline_slow K p oldpc newpc =
     (case solG_getfuncline K p oldpc of
        None \<Rightarrow> None
      | Some a \<Rightarrow>
          (case solG_getfuncline K p newpc of
             None \<Rightarrow> None
           | Some b \<Rightarrow> Some (a \<noteq> b)))"

definition changedline :: "macros \<Rightarrow> Proto \<Rightarrow> int \<Rightarrow> int \<Rightarrow> bool option" where
  "changedline K p oldpc newpc =
     (case lineinfo p of
        None \<Rightarrow> Some False
      | Some li \<Rightarrow>
          if newpc - oldpc < c_div (MAXIWTHABS K) 2 then
            (case changedline_loop K li oldpc newpc 0 of
               None \<Rightarrow> None
             | Some (Some b) \<Rightarrow> Some b
             | Some None \<Rightarrow> changedline_slow K p oldpc newpc)
          else changedline_slow K p oldpc newpc)"


subsection \<open>Symbolic execution: \<^verbatim>\<open>findsetreg\<close>\<close>

definition filterpc :: "int \<Rightarrow> int \<Rightarrow> int" where
  "filterpc pc jmptarget = (if pc < jmptarget then - 1 else pc)"

text \<open>
  The \<^verbatim>\<open>switch\<close> of \<^verbatim>\<open>findsetreg\<close>: whether instruction \<open>i\<close> changes register \<open>reg\<close>.
  The opcode property \<^verbatim>\<open>testAMode\<close> (\<^verbatim>\<open>lopcodes.h\<close>) is a parameter.
\<close>

definition changes_reg :: "(OpCode \<Rightarrow> bool) \<Rightarrow> Instruction \<Rightarrow> int \<Rightarrow> bool" where
  "changes_reg testAMode i reg =
     (let op = GET_OPCODE i; a = GETARG_A i
      in if op = OP_LOADNIL then a \<le> reg \<and> reg \<le> a + GETARG_B i
         else if op = OP_TFORCALL then reg \<ge> a + 2
         else if op = OP_CALL \<or> op = OP_TAILCALL then reg \<ge> a
         else if op = OP_JMP then False
         else testAMode op \<and> reg = a)"

text \<open>The case \<^verbatim>\<open>OP_JMP\<close> of the \<^verbatim>\<open>switch\<close>: the new value of \<^verbatim>\<open>jmptarget\<close>.\<close>

definition jmp_update :: "Instruction \<Rightarrow> int \<Rightarrow> int \<Rightarrow> int \<Rightarrow> int" where
  "jmp_update i pc lastpc jmptarget =
     (if GET_OPCODE i = OP_JMP then
        (let dest = pc + 1 + GETARG_sJ i
         in if dest \<le> lastpc \<and> dest > jmptarget then dest else jmptarget)
      else jmptarget)"

text \<open>The loop \<^verbatim>\<open>for (pc = 0; pc < lastpc; pc++)\<close> with its variables \<open>setreg\<close>, \<open>jmptarget\<close>.\<close>

function findsetreg_loop ::
  "(OpCode \<Rightarrow> bool) \<Rightarrow> Instruction list \<Rightarrow> int \<Rightarrow> int \<Rightarrow> int \<Rightarrow> int \<Rightarrow> int \<Rightarrow> int option" where
  "findsetreg_loop testAMode cd lastpc reg pc setreg jmptarget =
     (if pc < lastpc then
        (case rd cd pc of
           None \<Rightarrow> None
         | Some i \<Rightarrow>
             let jmptarget' = jmp_update i pc lastpc jmptarget
             in findsetreg_loop testAMode cd lastpc reg (pc + 1)
                  (if changes_reg testAMode i reg then filterpc pc jmptarget' else setreg)
                  jmptarget')
      else Some setreg)"
  by pat_completeness auto
termination
  by (relation "measure (\<lambda>(t, cd, lastpc, reg, pc, setreg, jmptarget). nat (lastpc - pc))") auto

declare findsetreg_loop.simps [simp del]

text \<open>The adjustment of \<open>lastpc\<close> made before the loop (\<^verbatim>\<open>testMMMode\<close> is a parameter).\<close>

definition findsetreg_limit :: "(OpCode \<Rightarrow> bool) \<Rightarrow> Instruction \<Rightarrow> int \<Rightarrow> int" where
  "findsetreg_limit testMMMode i lastpc =
     (if testMMMode (GET_OPCODE i) then lastpc - 1 else lastpc)"

definition findsetreg ::
  "(OpCode \<Rightarrow> bool) \<Rightarrow> (OpCode \<Rightarrow> bool) \<Rightarrow> Proto \<Rightarrow> int \<Rightarrow> int \<Rightarrow> int option" where
  "findsetreg testAMode testMMMode p lastpc reg =
     (case rd (code p) lastpc of
        None \<Rightarrow> None
      | Some i \<Rightarrow>
          findsetreg_loop testAMode (code p) (findsetreg_limit testMMMode i lastpc) reg 0 (- 1) 0)"


subsection \<open>Values, frames and the interpreter state\<close>

text \<open>
  A closure is a Sol closure with its prototype or a C closure, each with its number of
  upvalues; \<^verbatim>\<open>Closure *\<close> is a \<^typ>\<open>'a option\<close> with \<open>None\<close> for \<^verbatim>\<open>NULL\<close>, and the test
  \<^verbatim>\<open>SolClosure(f)\<close> is the case \<open>Some (LClosure p n)\<close>.
\<close>

datatype Closure = LClosure Proto nat | CClosure nat

datatype TValue =
    TNil | TBoolean bool | TNumber int | TString string
  | TClosure Closure | TLightCFunction nat | TTable "int set" | TUserdata nat

definition ttisstring :: "TValue \<Rightarrow> bool" where
  "ttisstring v = (case v of TString _ \<Rightarrow> True | _ \<Rightarrow> False)"

definition ttisnumber :: "TValue \<Rightarrow> bool" where
  "ttisnumber v = (case v of TNumber _ \<Rightarrow> True | _ \<Rightarrow> False)"

definition ttisclosure :: "TValue \<Rightarrow> bool" where
  "ttisclosure v = (case v of TClosure _ \<Rightarrow> True | _ \<Rightarrow> False)"

definition clvalue :: "TValue \<Rightarrow> Closure option" where
  "clvalue v = (case v of TClosure c \<Rightarrow> Some c | _ \<Rightarrow> None)"

definition nupvalues :: "Closure \<Rightarrow> nat" where
  "nupvalues f = (case f of LClosure _ n \<Rightarrow> n | CClosure n \<Rightarrow> n)"

text \<open>
  Modelled from the spec: the macro \<^verbatim>\<open>isSol\<close> and the bits \<^verbatim>\<open>CIST_*\<close> of \<open>callstatus\<close>
  (\<^verbatim>\<open>lstate.h\<close>) are missing. A frame has a kind, \<open>ScriptFrame\<close> or \<open>NativeFrame\<close>, and
  its \<open>callstatus\<close> is a set of flags drawn from \<open>TAIL\<close>, \<open>HOOKED\<close>, \<open>FIN\<close>, \<open>TRAN\<close>,
  \<open>HOOKYIELD\<close>.
\<close>

datatype frame_kind = ScriptFrame | NativeFrame

datatype cist = CIST_TAIL | CIST_HOOKED | CIST_FIN | CIST_TRAN | CIST_HOOKYIELD

text \<open>
  Stack positions (\<^verbatim>\<open>StkId\<close>) are integers. \<open>savedpc\<close> is the offset of the saved pointer
  from \<^verbatim>\<open>p->code\<close>.
\<close>

record CallInfo =
  func :: int
  ci_top :: int
  kind :: frame_kind
  savedpc :: int
  trap :: int
  nextraargs :: int
  callstatus :: "cist set"
  ftransfer :: int
  ntransfer :: int

definition isSol :: "CallInfo \<Rightarrow> bool" where
  "isSol ci = (kind ci = ScriptFrame)"

datatype lstatus = SOL_OK | SOL_YIELD | SOL_ERRRUN

text \<open>
  \<open>cis\<close> is the chain of frames that starts at \<^verbatim>\<open>L->ci\<close> and follows \<^verbatim>\<open>previous\<close>; its
  last element is \<^verbatim>\<open>base_ci\<close>. A \<^verbatim>\<open>CallInfo *\<close> is an index into this list; \<^verbatim>\<open>ci->next\<close> is
  the index before and \<^verbatim>\<open>ci->previous\<close> the index after. \<open>hook\<close> is the hook function
  pointer, \<open>None\<close> for \<^verbatim>\<open>NULL\<close>.
\<close>

record sol_State =
  stack :: "int \<Rightarrow> TValue"
  L_top :: int
  cis :: "CallInfo list"
  hook :: "nat option"
  hookmask :: int
  basehookcount :: int
  hookcount :: int
  oldpc :: int
  status :: lstatus

text \<open>
  \<^verbatim>\<open>ci_func(ci)->p\<close>: the prototype of the Sol closure in the frame's function slot;
  \<open>None\<close> when the slot holds no Sol closure.
\<close>

definition ci_func :: "sol_State \<Rightarrow> CallInfo \<Rightarrow> Proto option" where
  "ci_func L ci = (case stack L (func ci) of TClosure (LClosure p n) \<Rightarrow> Some p | _ \<Rightarrow> None)"

text \<open>
  Modelled from the spec: the macro \<^verbatim>\<open>pcRel\<close> (\<^verbatim>\<open>ldebug.h\<close>) is missing. \<open>savedpc\<close> is the
  program counter of the next instruction to execute, so the index of the current
  instruction is one less.
\<close>

definition pcRel :: "int \<Rightarrow> int" where
  "pcRel pc = pc - 1"

definition currentpc :: "CallInfo \<Rightarrow> int" where
  "currentpc ci = pcRel (savedpc ci)"

definition getcurrentline :: "macros \<Rightarrow> sol_State \<Rightarrow> CallInfo \<Rightarrow> int option" where
  "getcurrentline K L ci =
     (case ci_func L ci of
        None \<Rightarrow> None
      | Some p \<Rightarrow> solG_getfuncline K p (currentpc ci))"

subsection \<open>Hooks: \<^verbatim>\<open>sol_sethook\<close>\<close>

text \<open>The loop of \<^verbatim>\<open>settraps\<close> over the chain of frames.\<close>

fun settraps :: "CallInfo list \<Rightarrow> CallInfo list" where
  "settraps [] = []"
| "settraps (ci # previous) =
     (if isSol ci then ci\<lparr>trap := 1\<rparr> else ci) # settraps previous"

text \<open>
  Modelled from the spec: the macro \<^verbatim>\<open>resethookcount\<close> (\<^verbatim>\<open>ldebug.h\<close>) is missing; it resets
  the live hook count to \<open>basehookcount\<close>.
\<close>

definition resethookcount :: "sol_State \<Rightarrow> sol_State" where
  "resethookcount L = L\<lparr>hookcount := basehookcount L\<rparr>"

definition sol_sethook :: "sol_State \<Rightarrow> nat option \<Rightarrow> int \<Rightarrow> int \<Rightarrow> sol_State" where
  "sol_sethook L func0 mask0 count =
     (let off = (func0 = None \<or> mask0 = 0);
          hmask = (if off then 0 else mask0);
          func1 = (if off then None else func0);
          L1 = L\<lparr>hook := func1\<rparr>;
          L2 = L1\<lparr>basehookcount := count\<rparr>;
          L3 = resethookcount L2;
          L4 = L3\<lparr>hookmask := cast_byte hmask\<rparr>
      in if hmask \<noteq> 0 then L4\<lparr>cis := settraps (cis L4)\<rparr> else L4)"

subsection \<open>Local variables: \<^verbatim>\<open>solG_findlocal\<close>, \<^verbatim>\<open>sol_setlocal\<close>\<close>

text \<open>
  \<^verbatim>\<open>findvararg\<close> and \<^verbatim>\<open>solG_findlocal\<close> return the name together with the position stored
  through \<^verbatim>\<open>pos\<close>; the inner \<open>None\<close> is the \<^verbatim>\<open>NULL\<close> name, the outer \<open>None\<close> undefined
  behaviour.
\<close>

definition findvararg :: "sol_State \<Rightarrow> CallInfo \<Rightarrow> int \<Rightarrow> (string \<times> int) option option" where
  "findvararg L ci n =
     (case ci_func L ci of
        None \<Rightarrow> None
      | Some p \<Rightarrow>
          if is_vararg p then
            (let nextra = nextraargs ci
             in if n \<ge> - nextra then Some (Some (''(vararg)'', func ci - nextra - (n + 1)))
                else Some None)
          else Some None)"

text \<open>
  \<^verbatim>\<open>solF_getlocalname\<close> (\<^verbatim>\<open>lfunc.c\<close>) is a parameter: the name of the \<open>n\<close>-th local
  variable of a prototype that is active at a program counter, if any.
\<close>

definition solG_findlocal ::
  "(Proto \<Rightarrow> int \<Rightarrow> int \<Rightarrow> string option) \<Rightarrow> sol_State \<Rightarrow> nat \<Rightarrow> int
     \<Rightarrow> (string \<times> int) option option" where
  "solG_findlocal solF_getlocalname L i n =
     (if i < length (cis L) then
        (let ci = cis L ! i; base = func ci + 1
         in if isSol ci \<and> n < 0 then findvararg L ci n
            else
              (case (if isSol ci
                     then (case ci_func L ci of
                             None \<Rightarrow> None
                           | Some p \<Rightarrow> Some (solF_getlocalname p n (currentpc ci)))
                     else Some None) of
                 None \<Rightarrow> None
               | Some (Some name) \<Rightarrow> Some (Some (name, base + (n - 1)))
               | Some None \<Rightarrow>
                   (let limit = (if i = 0 then L_top L else func (cis L ! (i - 1)))
                    in if limit - base \<ge> n \<and> n > 0
                       then Some (Some (if isSol ci then ''(temporary)'' else ''(C temporary)'',
                                        base + (n - 1)))
                       else Some None)))
      else None)"

text \<open>
  \<^verbatim>\<open>sol_setlocal\<close> returns the name and the new state; its argument \<open>i\<close> is \<^verbatim>\<open>ar->i_ci\<close>.
\<close>

definition sol_setlocal ::
  "(Proto \<Rightarrow> int \<Rightarrow> int \<Rightarrow> string option) \<Rightarrow> sol_State \<Rightarrow> nat \<Rightarrow> int
     \<Rightarrow> (string option \<times> sol_State) option" where
  "sol_setlocal solF_getlocalname L i n =
     (case solG_findlocal solF_getlocalname L i n of
        None \<Rightarrow> None
      | Some None \<Rightarrow> Some (None, L)
      | Some (Some (name, pos)) \<Rightarrow>
          Some (Some name,
                L\<lparr>stack := (stack L)(pos := stack L (L_top L - 1)), L_top := L_top L - 1\<rparr>))"


subsection \<open>Tracing: \<^verbatim>\<open>solG_tracecall\<close>, \<^verbatim>\<open>solG_traceexec\<close>\<close>

text \<open>
  Modelled from the spec: the hook event codes (\<^verbatim>\<open>sol.h\<close>) are missing; they are \<open>CALL\<close>,
  \<open>RET\<close>, \<open>LINE\<close>, \<open>COUNT\<close> and \<open>TAILCALL\<close>.
\<close>

datatype hook_event =
  SOL_HOOKCALL | SOL_HOOKRET | SOL_HOOKLINE | SOL_HOOKCOUNT | SOL_HOOKTAILCALL

text \<open>
  The functions \<^verbatim>\<open>solD_hook\<close> and \<^verbatim>\<open>solD_hookcall\<close> (\<^verbatim>\<open>ldo.c\<close>) run user code and are
  parameters: given the state they either return a new state (\<open>Inr\<close>) or leave by a
  throw with a status (\<open>Inl\<close>). Each call of one of them is recorded as a dispatch:
  \<open>D_hookcall\<close> for \<^verbatim>\<open>solD_hookcall(L, ci)\<close>, \<open>D_hook e line\<close> for
  \<^verbatim>\<open>solD_hook(L, e, line, 0, 0)\<close>. The frame \<^verbatim>\<open>ci\<close> of the tracing functions is the head
  of \<open>cis\<close> before and after a hook.
\<close>

datatype dispatch = D_hookcall | D_hook hook_event int

datatype outcome = Returns int | Throws lstatus

type_synonym hookret = "(lstatus \<times> sol_State) + sol_State"

text \<open>The result of a tracing function: how it ends, the final state, the dispatches.\<close>

type_synonym traced = "(outcome \<times> sol_State \<times> dispatch list) option"

definition solG_tracecall :: "(sol_State \<Rightarrow> hookret) \<Rightarrow> sol_State \<Rightarrow> traced" where
  "solG_tracecall solD_hookcall L =
     (case cis L of
        [] \<Rightarrow> None
      | ci # previous \<Rightarrow>
          (case ci_func L ci of
             None \<Rightarrow> None
           | Some p \<Rightarrow>
               let L1 = L\<lparr>cis := ci\<lparr>trap := 1\<rparr> # previous\<rparr>
               in if savedpc ci = 0 then
                    (if is_vararg p then Some (Returns 0, L1, [])
                     else if CIST_HOOKYIELD \<notin> callstatus ci then
                       (case solD_hookcall L1 of
                          Inl (st, L2) \<Rightarrow> Some (Throws st, L2, [D_hookcall])
                        | Inr L2 \<Rightarrow> Some (Returns 1, L2, [D_hookcall]))
                     else Some (Returns 1, L1, []))
                  else Some (Returns 1, L1, [])))"

text \<open>
  \<^verbatim>\<open>solG_traceexec\<close> in three parts. First the part from
  \<^verbatim>\<open>if (counthook) solD_hook(L, SOL_HOOKCOUNT, -1, 0, 0);\<close> on: the count hook.
\<close>

definition traceexec_count ::
  "(hook_event \<Rightarrow> int \<Rightarrow> sol_State \<Rightarrow> hookret) \<Rightarrow> bool \<Rightarrow> sol_State
     \<Rightarrow> hookret \<times> dispatch list" where
  "traceexec_count solD_hook counthook L =
     (if counthook then (solD_hook SOL_HOOKCOUNT (- 1) L, [D_hook SOL_HOOKCOUNT (- 1)])
      else (Inr L, []))"

text \<open>The block \<^verbatim>\<open>if (mask & SOL_MASKLINE) { ... }\<close>; \<open>pc\<close> is the incremented pointer.\<close>

definition traceexec_line ::
  "macros \<Rightarrow> (hook_event \<Rightarrow> int \<Rightarrow> sol_State \<Rightarrow> hookret) \<Rightarrow> Proto \<Rightarrow> int \<Rightarrow> int
     \<Rightarrow> sol_State \<Rightarrow> (hookret \<times> dispatch list) option" where
  "traceexec_line K solD_hook p hmask pc L =
     (if hmask AND SOL_MASKLINE K \<noteq> 0 then
        (let oldpc' = (if oldpc L < sizecode p then oldpc L else 0);
             npci = pcRel pc
         in case (if npci \<le> oldpc' then Some True else changedline K p oldpc' npci) of
              None \<Rightarrow> None
            | Some False \<Rightarrow> Some (Inr (L\<lparr>oldpc := npci\<rparr>), [])
            | Some True \<Rightarrow>
                (case solG_getfuncline K p npci of
                   None \<Rightarrow> None
                 | Some newline \<Rightarrow>
                     (case solD_hook SOL_HOOKLINE newline L of
                        Inl t \<Rightarrow> Some (Inl t, [D_hook SOL_HOOKLINE newline])
                      | Inr L' \<Rightarrow>
                          Some (Inr (L'\<lparr>oldpc := npci\<rparr>), [D_hook SOL_HOOKLINE newline]))))
      else Some (Inr L, []))"

text \<open>The block \<^verbatim>\<open>if (L->status == SOL_YIELD) { ... }\<close> and the final \<^verbatim>\<open>return 1\<close>.\<close>

definition traceexec_yield :: "bool \<Rightarrow> sol_State \<Rightarrow> (outcome \<times> sol_State) option" where
  "traceexec_yield counthook L =
     (if status L = SOL_YIELD then
        (let L1 = (if counthook then L\<lparr>hookcount := 1\<rparr> else L)
         in case cis L1 of
              [] \<Rightarrow> None
            | ci # previous \<Rightarrow>
                Some (Throws SOL_YIELD,
                      L1\<lparr>cis := ci\<lparr>callstatus := insert CIST_HOOKYIELD (callstatus ci)\<rparr>
                                  # previous\<rparr>))
      else Some (Returns 1, L))"

text \<open>The three parts in sequence; a throw of a hook ends the function at once.\<close>

definition traceexec_hooks ::
  "macros \<Rightarrow> (hook_event \<Rightarrow> int \<Rightarrow> sol_State \<Rightarrow> hookret) \<Rightarrow> Proto \<Rightarrow> int \<Rightarrow> bool \<Rightarrow> int
     \<Rightarrow> sol_State \<Rightarrow> traced" where
  "traceexec_hooks K solD_hook p hmask counthook pc L =
     (case traceexec_count solD_hook counthook L of
        (Inl (st, L1), ds1) \<Rightarrow> Some (Throws st, L1, ds1)
      | (Inr L1, ds1) \<Rightarrow>
          (case traceexec_line K solD_hook p hmask pc L1 of
             None \<Rightarrow> None
           | Some (Inl (st, L2), ds2) \<Rightarrow> Some (Throws st, L2, ds1 @ ds2)
           | Some (Inr L2, ds2) \<Rightarrow>
               (case traceexec_yield counthook L2 of
                  None \<Rightarrow> None
                | Some (r, L3) \<Rightarrow> Some (r, L3, ds1 @ ds2))))"

text \<open>
  \<^verbatim>\<open>solG_traceexec\<close>; \<open>pc\<close> is the offset of its argument from \<^verbatim>\<open>p->code\<close>. The predicate
  \<^verbatim>\<open>isIT\<close> (\<^verbatim>\<open>lopcodes.h\<close>) is a parameter.
\<close>

definition solG_traceexec ::
  "macros \<Rightarrow> (Instruction \<Rightarrow> bool) \<Rightarrow> (hook_event \<Rightarrow> int \<Rightarrow> sol_State \<Rightarrow> hookret)
     \<Rightarrow> sol_State \<Rightarrow> int \<Rightarrow> traced" where
  "solG_traceexec K isIT solD_hook L pc0 =
     (case cis L of
        [] \<Rightarrow> None
      | ci # previous \<Rightarrow>
          (case ci_func L ci of
             None \<Rightarrow> None
           | Some p \<Rightarrow>
               let hmask = cast_byte (hookmask L)
               in if hmask AND (SOL_MASKLINE K OR SOL_MASKCOUNT K) = 0 then
                    Some (Returns 0, L\<lparr>cis := ci\<lparr>trap := 0\<rparr> # previous\<rparr>, [])
                  else
                    (let pc = pc0 + 1;
                         ci1 = ci\<lparr>savedpc := pc\<rparr>;
                         L1 = L\<lparr>cis := ci1 # previous\<rparr>;
                         L2 = (if hmask AND SOL_MASKCOUNT K \<noteq> 0
                               then L1\<lparr>hookcount := hookcount L1 - 1\<rparr> else L1);
                         counthook = (hmask AND SOL_MASKCOUNT K \<noteq> 0 \<and> hookcount L2 = 0);
                         L3 = (if counthook then resethookcount L2 else L2)
                     in if \<not> counthook \<and> hmask AND SOL_MASKLINE K = 0 then
                          Some (Returns 1, L3, [])
                        else if CIST_HOOKYIELD \<in> callstatus ci1 then
                          Some (Returns 1,
                                L3\<lparr>cis := ci1\<lparr>callstatus := callstatus ci1 - {CIST_HOOKYIELD}\<rparr>
                                            # previous\<rparr>, [])
                        else
                          (case rd (code p) (savedpc ci1 - 1) of
                             None \<Rightarrow> None
                           | Some i \<Rightarrow>
                               traceexec_hooks K solD_hook p hmask counthook pc
                                 (if \<not> isIT i then L3\<lparr>L_top := ci_top ci1\<rparr> else L3)))))"

subsection \<open>Errors: \<^verbatim>\<open>solG_concaterror\<close>\<close>

text \<open>
  The functions that raise do not return; their model is the error raised. A type error
  carries the operand that \<^verbatim>\<open>solG_typeerror\<close> received, the operation, and the message
  that \<^verbatim>\<open>typeerror\<close> formats for \<^verbatim>\<open>solG_runerror\<close>. \<^verbatim>\<open>solT_objtypename\<close> (\<^verbatim>\<open>ltm.c\<close>) and
  the description \<^verbatim>\<open>varinfo\<close> of the operand are parameters.
\<close>

record type_error =
  blamed :: TValue
  opname :: string
  message :: string

definition typeerror :: "(TValue \<Rightarrow> string) \<Rightarrow> TValue \<Rightarrow> string \<Rightarrow> string \<Rightarrow> type_error" where
  "typeerror solT_objtypename o1 op1 extra =
     \<lparr>blamed = o1, opname = op1,
      message = ''attempt to '' @ op1 @ '' a '' @ solT_objtypename o1 @ '' value'' @ extra\<rparr>"

definition solG_typeerror ::
  "(TValue \<Rightarrow> string) \<Rightarrow> (TValue \<Rightarrow> string) \<Rightarrow> TValue \<Rightarrow> string \<Rightarrow> type_error" where
  "solG_typeerror solT_objtypename varinfo o1 op1 =
     typeerror solT_objtypename o1 op1 (varinfo o1)"

text \<open>The macro \<^verbatim>\<open>cvt2str\<close> (\<^verbatim>\<open>lvm.h\<close>) is a parameter.\<close>

definition solG_concaterror ::
  "(TValue \<Rightarrow> bool) \<Rightarrow> (TValue \<Rightarrow> string) \<Rightarrow> (TValue \<Rightarrow> string) \<Rightarrow> TValue \<Rightarrow> TValue
     \<Rightarrow> type_error" where
  "solG_concaterror cvt2str solT_objtypename varinfo p1 p2 =
     (let p1' = (if ttisstring p1 \<or> cvt2str p1 then p2 else p1)
      in solG_typeerror solT_objtypename varinfo p1' ''concatenate'')"

subsection \<open>Debug information: \<^verbatim>\<open>auxgetinfo\<close>, \<^verbatim>\<open>sol_getinfo\<close>\<close>

text \<open>
  The record \<^verbatim>\<open>sol_Debug\<close>; \<open>ar_name\<close> is \<open>None\<close> for \<^verbatim>\<open>NULL\<close>, and \<open>ar_istailcall\<close> tells
  whether the \<^verbatim>\<open>char\<close> stored is non-zero.
\<close>

record sol_Debug =
  ar_source :: string
  ar_srclen :: nat
  ar_short_src :: string
  ar_what :: string
  ar_linedefined :: int
  ar_lastlinedefined :: int
  ar_currentline :: int
  ar_name :: "string option"
  ar_namewhat :: string
  ar_nups :: nat
  ar_nparams :: int
  ar_isvararg :: bool
  ar_istailcall :: bool
  ar_ftransfer :: int
  ar_ntransfer :: int
  i_ci :: nat

text \<open>\<^verbatim>\<open>solO_chunkid\<close> (\<^verbatim>\<open>lobject.c\<close>) is a parameter.\<close>

definition funcinfo :: "(string \<Rightarrow> nat \<Rightarrow> string) \<Rightarrow> sol_Debug \<Rightarrow> Closure option \<Rightarrow> sol_Debug" where
  "funcinfo solO_chunkid ar cl =
     (let ar1 =
        (case cl of
           Some (LClosure p n) \<Rightarrow>
             (let ar2 = (case source p of
                           Some src \<Rightarrow> ar\<lparr>ar_source := src, ar_srclen := length src\<rparr>
                         | None \<Rightarrow> ar\<lparr>ar_source := ''=?'', ar_srclen := 2\<rparr>);
                  ar3 = ar2\<lparr>ar_linedefined := linedefined p,
                            ar_lastlinedefined := lastlinedefined p\<rparr>
              in ar3\<lparr>ar_what := (if ar_linedefined ar3 = 0 then ''main'' else ''Sol'')\<rparr>)
         | _ \<Rightarrow>
             ar\<lparr>ar_source := ''=[C]'', ar_srclen := 4, ar_linedefined := - 1,
                ar_lastlinedefined := - 1, ar_what := ''C''\<rparr>)
      in ar1\<lparr>ar_short_src := solO_chunkid (ar_source ar1) (ar_srclen ar1)\<rparr>)"

text \<open>
  \<^verbatim>\<open>funcnamefromcall\<close> returns the pair \<open>(kind, name)\<close> or \<open>None\<close> for \<^verbatim>\<open>NULL\<close>.
  \<^verbatim>\<open>funcnamefromcode\<close> needs the table of metamethod names and the enumeration \<^verbatim>\<open>TMS\<close>
  (\<^verbatim>\<open>ltm.h\<close>), which are missing, and is a parameter.
\<close>

definition funcnamefromcall ::
  "(Proto \<Rightarrow> int \<Rightarrow> (string \<times> string) option) \<Rightarrow> sol_State \<Rightarrow> int
     \<Rightarrow> (string \<times> string) option option" where
  "funcnamefromcall funcnamefromcode L i =
     (case rd (cis L) i of
        None \<Rightarrow> None
      | Some ci \<Rightarrow>
          if CIST_HOOKED \<in> callstatus ci then Some (Some (''hook'', ''?''))
          else if CIST_FIN \<in> callstatus ci then Some (Some (''metamethod'', ''__gc''))
          else if isSol ci then
            (case ci_func L ci of
               None \<Rightarrow> None
             | Some p \<Rightarrow> Some (funcnamefromcode p (currentpc ci)))
          else Some None)"

definition getfuncname ::
  "(Proto \<Rightarrow> int \<Rightarrow> (string \<times> string) option) \<Rightarrow> sol_State \<Rightarrow> nat option
     \<Rightarrow> (string \<times> string) option option" where
  "getfuncname funcnamefromcode L ci =
     (case ci of
        None \<Rightarrow> Some None
      | Some i \<Rightarrow>
          (case rd (cis L) (int i) of
             None \<Rightarrow> None
           | Some c \<Rightarrow>
               if CIST_TAIL \<notin> callstatus c
               then funcnamefromcall funcnamefromcode L (int i + 1)
               else Some None))"

text \<open>
  The \<^verbatim>\<open>switch\<close> of \<^verbatim>\<open>auxgetinfo\<close> for one character: the new record, and \<open>False\<close> when
  the character falls to \<^verbatim>\<open>default\<close>.
\<close>

definition auxgetinfo_switch ::
  "macros \<Rightarrow> (string \<Rightarrow> nat \<Rightarrow> string) \<Rightarrow> (Proto \<Rightarrow> int \<Rightarrow> (string \<times> string) option)
     \<Rightarrow> sol_State \<Rightarrow> char \<Rightarrow> sol_Debug \<Rightarrow> Closure option \<Rightarrow> nat option
     \<Rightarrow> (bool \<times> sol_Debug) option" where
  "auxgetinfo_switch K solO_chunkid funcnamefromcode L c ar f ci =
     (if c = CHR ''S'' then Some (True, funcinfo solO_chunkid ar f)
      else if c = CHR ''l'' then
        (case ci of
           None \<Rightarrow> Some (True, ar\<lparr>ar_currentline := - 1\<rparr>)
         | Some i \<Rightarrow>
             (case rd (cis L) (int i) of
                None \<Rightarrow> None
              | Some cinfo \<Rightarrow>
                  if isSol cinfo then
                    (case getcurrentline K L cinfo of
                       None \<Rightarrow> None
                     | Some line \<Rightarrow> Some (True, ar\<lparr>ar_currentline := line\<rparr>))
                  else Some (True, ar\<lparr>ar_currentline := - 1\<rparr>)))
      else if c = CHR ''u'' then
        (let ar1 = ar\<lparr>ar_nups := (case f of None \<Rightarrow> 0 | Some cl \<Rightarrow> nupvalues cl)\<rparr>
         in case f of
              Some (LClosure p n) \<Rightarrow>
                Some (True, ar1\<lparr>ar_isvararg := is_vararg p, ar_nparams := numparams p\<rparr>)
            | _ \<Rightarrow> Some (True, ar1\<lparr>ar_isvararg := True, ar_nparams := 0\<rparr>))
      else if c = CHR ''t'' then
        (case ci of
           None \<Rightarrow> Some (True, ar\<lparr>ar_istailcall := False\<rparr>)
         | Some i \<Rightarrow>
             (case rd (cis L) (int i) of
                None \<Rightarrow> None
              | Some cinfo \<Rightarrow>
                  Some (True, ar\<lparr>ar_istailcall := (CIST_TAIL \<in> callstatus cinfo)\<rparr>)))
      else if c = CHR ''n'' then
        (case getfuncname funcnamefromcode L ci of
           None \<Rightarrow> None
         | Some None \<Rightarrow> Some (True, ar\<lparr>ar_namewhat := [], ar_name := None\<rparr>)
         | Some (Some (what, name)) \<Rightarrow>
             Some (True, ar\<lparr>ar_namewhat := what, ar_name := Some name\<rparr>))
      else if c = CHR ''r'' then
        (case ci of
           None \<Rightarrow> Some (True, ar\<lparr>ar_ftransfer := 0, ar_ntransfer := 0\<rparr>)
         | Some i \<Rightarrow>
             (case rd (cis L) (int i) of
                None \<Rightarrow> None
              | Some cinfo \<Rightarrow>
                  if CIST_TRAN \<notin> callstatus cinfo
                  then Some (True, ar\<lparr>ar_ftransfer := 0, ar_ntransfer := 0\<rparr>)
                  else Some (True, ar\<lparr>ar_ftransfer := ftransfer cinfo,
                                      ar_ntransfer := ntransfer cinfo\<rparr>)))
      else if c = CHR ''L'' \<or> c = CHR ''f'' then Some (True, ar)
      else Some (False, ar))"

text \<open>The loop \<^verbatim>\<open>for (; *what; what++)\<close> with the variable \<^verbatim>\<open>status\<close> (here \<open>st\<close>).\<close>

fun auxgetinfo_loop ::
  "macros \<Rightarrow> (string \<Rightarrow> nat \<Rightarrow> string) \<Rightarrow> (Proto \<Rightarrow> int \<Rightarrow> (string \<times> string) option)
     \<Rightarrow> sol_State \<Rightarrow> string \<Rightarrow> sol_Debug \<Rightarrow> Closure option \<Rightarrow> nat option \<Rightarrow> int
     \<Rightarrow> (int \<times> sol_Debug) option" where
  "auxgetinfo_loop K chunkid fnfc L [] ar f ci st = Some (st, ar)"
| "auxgetinfo_loop K chunkid fnfc L (c # what) ar f ci st =
     (case auxgetinfo_switch K chunkid fnfc L c ar f ci of
        None \<Rightarrow> None
      | Some (valid, ar') \<Rightarrow>
          auxgetinfo_loop K chunkid fnfc L what ar' f ci (if valid then st else 0))"

definition auxgetinfo ::
  "macros \<Rightarrow> (string \<Rightarrow> nat \<Rightarrow> string) \<Rightarrow> (Proto \<Rightarrow> int \<Rightarrow> (string \<times> string) option)
     \<Rightarrow> sol_State \<Rightarrow> string \<Rightarrow> sol_Debug \<Rightarrow> Closure option \<Rightarrow> nat option
     \<Rightarrow> (int \<times> sol_Debug) option" where
  "auxgetinfo K chunkid fnfc L what ar f ci = auxgetinfo_loop K chunkid fnfc L what ar f ci 1"

definition nextline :: "macros \<Rightarrow> Proto \<Rightarrow> int list \<Rightarrow> int \<Rightarrow> int \<Rightarrow> int option" where
  "nextline K p li currentline pc =
     (case rd li pc of
        None \<Rightarrow> None
      | Some d \<Rightarrow> if d \<noteq> ABSLINEINFO K then Some (currentline + d) else solG_getfuncline K p pc)"

text \<open>
  The loop of \<^verbatim>\<open>collectvalidlines\<close>; the table of active lines is the set of its keys.
\<close>

function collectvalidlines_loop ::
  "macros \<Rightarrow> Proto \<Rightarrow> int list \<Rightarrow> int \<Rightarrow> int \<Rightarrow> int set \<Rightarrow> int set option" where
  "collectvalidlines_loop K p li i currentline t =
     (if i < int (length li) then
        (case nextline K p li currentline i of
           None \<Rightarrow> None
         | Some line \<Rightarrow> collectvalidlines_loop K p li (i + 1) line (insert line t))
      else Some t)"
  by pat_completeness auto
termination
  by (relation "measure (\<lambda>(K, p, li, i, currentline, t). nat (int (length li) - i))") auto

declare collectvalidlines_loop.simps [simp del]

definition push :: "sol_State \<Rightarrow> TValue \<Rightarrow> sol_State" where
  "push L v = L\<lparr>stack := (stack L)(L_top L := v), L_top := L_top L + 1\<rparr>"

definition collectvalidlines :: "macros \<Rightarrow> sol_State \<Rightarrow> Closure option \<Rightarrow> sol_State option" where
  "collectvalidlines K L f =
     (case f of
        Some (LClosure p n) \<Rightarrow>
          (case lineinfo p of
             None \<Rightarrow> Some (push L (TTable {}))
           | Some li \<Rightarrow>
               (case (if \<not> is_vararg p then Some (0, linedefined p)
                      else map_option (Pair 1) (nextline K p li (linedefined p) 0)) of
                  None \<Rightarrow> None
                | Some (i, currentline) \<Rightarrow>
                    map_option (\<lambda>t. push L (TTable t))
                      (collectvalidlines_loop K p li i currentline {})))
      | _ \<Rightarrow> Some (push L TNil))"

text \<open>\<^verbatim>\<open>sol_getinfo\<close> returns the status, the record and the new state.\<close>

definition sol_getinfo ::
  "macros \<Rightarrow> (string \<Rightarrow> nat \<Rightarrow> string) \<Rightarrow> (Proto \<Rightarrow> int \<Rightarrow> (string \<times> string) option)
     \<Rightarrow> sol_State \<Rightarrow> string \<Rightarrow> sol_Debug \<Rightarrow> (int \<times> sol_Debug \<times> sol_State) option" where
  "sol_getinfo K chunkid fnfc L what ar =
     (case (if what \<noteq> [] \<and> hd what = CHR ''>''
            then Some (None, stack L (L_top L - 1), tl what, L\<lparr>L_top := L_top L - 1\<rparr>)
            else (case rd (cis L) (int (i_ci ar)) of
                    None \<Rightarrow> None
                  | Some c \<Rightarrow> Some (Some (i_ci ar), stack L (func c), what, L))) of
        None \<Rightarrow> None
      | Some (ci, fn, what', L1) \<Rightarrow>
          (let cl = (if ttisclosure fn then clvalue fn else None)
           in case auxgetinfo K chunkid fnfc L1 what' ar cl ci of
                None \<Rightarrow> None
              | Some (status', ar') \<Rightarrow>
                  (let L2 = (if CHR ''f'' \<in> set what' then push L1 fn else L1)
                   in case (if CHR ''L'' \<in> set what' then collectvalidlines K L2 cl
                            else Some L2) of
                        None \<Rightarrow> None
                      | Some L3 \<Rightarrow> Some (status', ar', L3))))"

subsection \<open>Well-formed line information and sample data\<close>

text \<open>
  The invariants of a prototype's line information, as the compiler produces it and as
  the assertions of \<^verbatim>\<open>getbaseline\<close> and \<^verbatim>\<open>solG_getfuncline\<close> state them. \<open>estimate_ok\<close> is
  the assertion of \<^verbatim>\<open>getbaseline\<close>: the estimate \<open>pc / MAXIWTHABS - 1\<close> is negative or the
  index of an entry of \<open>abslineinfo\<close> at or before \<open>pc\<close>.
\<close>

definition estimate_ok :: "macros \<Rightarrow> AbsLineInfo list \<Rightarrow> int \<Rightarrow> bool" where
  "estimate_ok K ab pc =
     (let i = pc div MAXIWTHABS K - 1
      in i < 0 \<or> (i < int (length ab) \<and> abs_pc (ab ! nat i) \<le> pc))"

text \<open>
  \<open>wf_lineinfo\<close>: there is one line entry for each instruction; \<open>abslineinfo\<close> is strictly
  sorted by \<open>pc\<close> and its entries lie inside the code; \<open>lineinfo[pc]\<close> is \<open>ABSLINEINFO\<close>
  exactly at the \<open>pc\<close>s of \<open>abslineinfo\<close>; the estimate is a lower bound wherever
  \<^verbatim>\<open>getbaseline\<close> computes it.
\<close>

definition wf_lineinfo :: "macros \<Rightarrow> Proto \<Rightarrow> bool" where
  "wf_lineinfo K f =
     (case lineinfo f of
        None \<Rightarrow> True
      | Some li \<Rightarrow>
          0 < MAXIWTHABS K \<and> MAXIWTHABS K < 2 ^ 31 \<and>
          length (code f) = length li \<and> int (length li) < 2 ^ 31 \<and>
          sorted_wrt (<) (map abs_pc (abslineinfo f)) \<and>
          list_all (\<lambda>e. 0 \<le> abs_pc e \<and> abs_pc e < int (length li)) (abslineinfo f) \<and>
          list_all (\<lambda>pc. (li ! pc = ABSLINEINFO K) = (int pc \<in> set (map abs_pc (abslineinfo f))))
            [0..<length li] \<and>
          list_all (\<lambda>pc. abslineinfo f = [] \<or> int pc < abs_pc (abslineinfo f ! 0)
                        \<or> estimate_ok K (abslineinfo f) (int pc))
            [0..<length li])"

text \<open>\<open>is_base ab pc j\<close>: entry \<open>j\<close> is the last entry of \<open>ab\<close> at or before \<open>pc\<close>.\<close>

definition is_base :: "AbsLineInfo list \<Rightarrow> int \<Rightarrow> int \<Rightarrow> bool" where
  "is_base ab pc j =
     (0 \<le> j \<and> j < int (length ab) \<and> abs_pc (ab ! nat j) \<le> pc \<and>
      (j + 1 < int (length ab) \<longrightarrow> pc < abs_pc (ab ! nat (j + 1))))"

text \<open>
  The values that the macros have in the headers of the interpreter this one derives
  from; they are used for concrete instances only.
\<close>

definition sol_macros :: macros where
  "sol_macros = \<lparr>MAXIWTHABS = 128, ABSLINEINFO = - 128, SOL_MASKLINE = 4, SOL_MASKCOUNT = 8\<rparr>"

definition instr :: "OpCode \<Rightarrow> int \<Rightarrow> Instruction" where
  "instr opc a =
     \<lparr>GET_OPCODE = opc, GETARG_A = a, GETARG_B = 0, GETARG_C = 0, GETARG_sJ = 0\<rparr>"

text \<open>
  The prototype of the first scenario: \<open>linedefined = 10\<close>,
  \<open>lineinfo = [0, +1, +2, ABSLINEINFO, -3]\<close>, \<open>abslineinfo = [(3, 15)]\<close>.
\<close>

definition scenario1 :: "macros \<Rightarrow> Proto" where
  "scenario1 K =
     \<lparr>code = replicate 5 (instr (OP_OTHER 0) 0),
      lineinfo = Some [0, 1, 2, ABSLINEINFO K, - 3],
      abslineinfo = [\<lparr>abs_pc = 3, abs_line = 15\<rparr>],
      linedefined = 10, lastlinedefined = 20, is_vararg = False, numparams = 0,
      source = None\<rparr>"

definition sample_frame :: CallInfo where
  "sample_frame =
     \<lparr>func = 0, ci_top = 5, kind = ScriptFrame, savedpc = 1, trap = 1, nextraargs = 0,
      callstatus = {}, ftransfer = 0, ntransfer = 0\<rparr>"

definition base_frame :: CallInfo where
  "base_frame =
     \<lparr>func = - 1, ci_top = 0, kind = NativeFrame, savedpc = 0, trap = 0, nextraargs = 0,
      callstatus = {}, ftransfer = 0, ntransfer = 0\<rparr>"

text \<open>
  A state in which the first scenario's function runs its second instruction with the
  line and count hooks on and the count about to reach zero.
\<close>

definition sample_state :: sol_State where
  "sample_state =
     \<lparr>stack = (\<lambda>_. TNil)(0 := TClosure (LClosure (scenario1 sol_macros) 0)),
      L_top = 3, cis = [sample_frame, base_frame], hook = Some 1, hookmask = 12,
      basehookcount = 1, hookcount = 1, oldpc = 0, status = SOL_OK\<rparr>"

text \<open>Hooks that return at once.\<close>

definition hook_returns :: "hook_event \<Rightarrow> int \<Rightarrow> sol_State \<Rightarrow> hookret" where
  "hook_returns e line L = Inr L"

definition hookcall_returns :: "sol_State \<Rightarrow> hookret" where
  "hookcall_returns L = Inr L"

definition vararg_proto :: Proto where
  "vararg_proto = (scenario1 sol_macros)\<lparr>is_vararg := True\<rparr>"

text \<open>A state at the entry of a function with prototype \<open>p\<close>.\<close>

definition entry_state :: "Proto \<Rightarrow> sol_State" where
  "entry_state p =
     \<lparr>stack = (\<lambda>_. TNil)(0 := TClosure (LClosure p 0)),
      L_top = 3, cis = [sample_frame\<lparr>savedpc := 0, trap := 0\<rparr>, base_frame], hook = Some 1,
      hookmask = 1, basehookcount = 0, hookcount = 0, oldpc = 0, status = SOL_OK\<rparr>"

text \<open>A state whose current frame runs a vararg function with \<open>nextra\<close> extra arguments.\<close>

definition vararg_state :: "int \<Rightarrow> sol_State" where
  "vararg_state nextra =
     \<lparr>stack = (\<lambda>_. TNil)(5 := TClosure (LClosure vararg_proto 0)),
      L_top = 8,
      cis = [sample_frame\<lparr>func := 5, ci_top := 10, nextraargs := nextra\<rparr>, base_frame],
      hook = None, hookmask = 0, basehookcount = 0, hookcount = 0, oldpc = 0,
      status = SOL_OK\<rparr>"

definition no_localname :: "Proto \<Rightarrow> int \<Rightarrow> int \<Rightarrow> string option" where
  "no_localname p n pc = None"

definition no_funcname :: "Proto \<Rightarrow> int \<Rightarrow> (string \<times> string) option" where
  "no_funcname p pc = None"

definition plain_chunkid :: "string \<Rightarrow> nat \<Rightarrow> string" where
  "plain_chunkid src len = src"

definition named_proto :: Proto where
  "named_proto = (scenario1 sol_macros)\<lparr>numparams := 1, source := Some ''@t.sol''\<rparr>"

definition stale_ar :: sol_Debug where
  "stale_ar =
     \<lparr>ar_source = ''x'', ar_srclen = 9, ar_short_src = ''x'', ar_what = ''x'',
      ar_linedefined = 99, ar_lastlinedefined = 99, ar_currentline = 99,
      ar_name = Some ''x'', ar_namewhat = ''x'', ar_nups = 9, ar_nparams = 9,
      ar_isvararg = True, ar_istailcall = True, ar_ftransfer = 9, ar_ntransfer = 9,
      i_ci = 0\<rparr>"

definition info_state :: sol_State where
  "info_state =
     \<lparr>stack = (\<lambda>_. TNil)(5 := TClosure (LClosure named_proto 2),
                            7 := TClosure (LClosure named_proto 2)),
      L_top = 8,
      cis = [sample_frame\<lparr>func := 5, ci_top := 10, savedpc := 2, callstatus := {CIST_TRAN},
                          ftransfer := 2, ntransfer := 3\<rparr>,
             base_frame\<lparr>func := 1, callstatus := {CIST_HOOKED}\<rparr>,
             base_frame],
      hook = Some 1, hookmask = 4, basehookcount = 0, hookcount = 0, oldpc = 0,
      status = SOL_OK\<rparr>"

definition filled_ar :: sol_Debug where
  "filled_ar =
     \<lparr>ar_source = ''@t.sol'', ar_srclen = 6, ar_short_src = ''@t.sol'', ar_what = ''Sol'',
      ar_linedefined = 10, ar_lastlinedefined = 20, ar_currentline = 11,
      ar_name = Some ''?'', ar_namewhat = ''hook'', ar_nups = 2, ar_nparams = 1,
      ar_isvararg = False, ar_istailcall = False, ar_ftransfer = 2, ar_ntransfer = 3,
      i_ci = 0\<rparr>"

subsection \<open>Notions used in the statements\<close>

text \<open>
  For \<^verbatim>\<open>findsetreg\<close>: the instructions before \<open>n\<close> that change \<open>reg\<close>; the destinations of
  the jumps before \<open>n\<close> that do not pass \<open>lastpc\<close>; the largest of these destinations (or
  0), which is the value of \<^verbatim>\<open>jmptarget\<close> when the loop reaches \<open>n\<close>; and the result that
  the last write determines.
\<close>

definition writes :: "(OpCode \<Rightarrow> bool) \<Rightarrow> Instruction list \<Rightarrow> int \<Rightarrow> nat \<Rightarrow> nat list" where
  "writes testAMode cd reg n = filter (\<lambda>j. changes_reg testAMode (cd ! j) reg) [0..<n]"

definition jumps_before :: "Instruction list \<Rightarrow> int \<Rightarrow> nat \<Rightarrow> int list" where
  "jumps_before cd lastpc n =
     filter (\<lambda>dest. dest \<le> lastpc)
       (map (\<lambda>j. int j + 1 + GETARG_sJ (cd ! j))
          (filter (\<lambda>j. GET_OPCODE (cd ! j) = OP_JMP) [0..<n]))"

definition jmptarget_at :: "Instruction list \<Rightarrow> int \<Rightarrow> nat \<Rightarrow> int" where
  "jmptarget_at cd lastpc n = fold max (jumps_before cd lastpc n) 0"

definition last_write ::
  "(OpCode \<Rightarrow> bool) \<Rightarrow> Instruction list \<Rightarrow> int \<Rightarrow> int \<Rightarrow> nat \<Rightarrow> int" where
  "last_write testAMode cd reg lastpc n =
     (let ws = writes testAMode cd reg n
      in if ws = [] then - 1
         else if int (last ws) < jmptarget_at cd lastpc (last ws) then - 1
         else int (last ws))"

text \<open>
  The reading of \<^verbatim>\<open>findsetreg\<close> in the specification's words: a write before
  \<open>jmptarget\<close> is discarded and leaves the candidate as it is, a write at or after
  \<open>jmptarget\<close> replaces the candidate, and the last accepted one is returned.
\<close>

definition findsetreg_last_accepted ::
  "(OpCode \<Rightarrow> bool) \<Rightarrow> (OpCode \<Rightarrow> bool) \<Rightarrow> Proto \<Rightarrow> int \<Rightarrow> int \<Rightarrow> int option" where
  "findsetreg_last_accepted testAMode testMMMode p lastpc reg =
     (case rd (code p) lastpc of
        None \<Rightarrow> None
      | Some i \<Rightarrow>
          (let lim = findsetreg_limit testMMMode i lastpc
           in Some (fst (fold
                (\<lambda>pc (candidate, jmptarget).
                   let ins = code p ! pc;
                       jmptarget' = jmp_update ins (int pc) lim jmptarget
                   in (if changes_reg testAMode ins reg \<and> \<not> int pc < jmptarget'
                       then int pc else candidate, jmptarget'))
                [0..<nat lim] (- 1, 0)))))"

text \<open>
  The opcode properties on the opcodes of the sample below, and the code of
  \<^verbatim>\<open>local x = 1; if c then x = 2 end; return x\<close>: a load of register 0, a test, a
  jump over the second load of register 0, and the return.
\<close>

definition sample_testAMode :: "OpCode \<Rightarrow> bool" where
  "sample_testAMode opc = (opc = OP_MOVE \<or> opc = OP_LOADK \<or> opc = OP_GETUPVAL)"

definition sample_testMMMode :: "OpCode \<Rightarrow> bool" where
  "sample_testMMMode opc = (opc = OP_MMBIN \<or> opc = OP_MMBINI \<or> opc = OP_MMBINK)"

definition cond_assign :: Proto where
  "cond_assign =
     \<lparr>code = [instr OP_LOADK 0, instr (OP_OTHER 0) 1, (instr OP_JMP 0)\<lparr>GETARG_sJ := 1\<rparr>,
              instr OP_LOADK 0, instr OP_RETURN 0],
      lineinfo = None, abslineinfo = [], linedefined = 1, lastlinedefined = 1,
      is_vararg = False, numparams = 0, source = None\<rparr>"

text \<open>
  For \<^verbatim>\<open>solG_traceexec\<close>: a dispatch of the hook with a given event, and the order of
  the count and line dispatches (no count dispatch after a line dispatch).
\<close>

definition is_event :: "hook_event \<Rightarrow> dispatch \<Rightarrow> bool" where
  "is_event e d = (case d of D_hook e' line \<Rightarrow> e' = e | D_hookcall \<Rightarrow> False)"

fun count_before_line :: "dispatch list \<Rightarrow> bool" where
  "count_before_line [] = True"
| "count_before_line (d # ds) =
     ((if is_event SOL_HOOKLINE d then \<not> list_ex (is_event SOL_HOOKCOUNT) ds else True)
      \<and> count_before_line ds)"

text \<open>
  For \<^verbatim>\<open>solG_concaterror\<close>: the operand the claim names, "p1 exactly when p1 is not a
  string, and otherwise p2".
\<close>

definition blamed_nonstring :: "TValue \<Rightarrow> TValue \<Rightarrow> TValue" where
  "blamed_nonstring p1 p2 = (if \<not> ttisstring p1 then p1 else p2)"

text \<open>
  For \<^verbatim>\<open>auxgetinfo\<close>: the option characters that its \<^verbatim>\<open>switch\<close> has a case for, and the
  option string of \<^verbatim>\<open>sol_getinfo\<close> without its leading \<open>>\<close>.
\<close>

definition recognized :: "char \<Rightarrow> bool" where
  "recognized c = (c \<in> set ''SlutnrfL'')"

definition strip_gt :: "string \<Rightarrow> string" where
  "strip_gt what = (if what \<noteq> [] \<and> hd what = CHR ''>'' then tl what else what)"

text \<open>
  What each option of \<^verbatim>\<open>auxgetinfo\<close> writes, in the words of the specification: the
  fields that belong to an option, and the values the option gives them. \<open>S\<close>: the
  source, its length and printable form, the kind and the two lines (\<open>=[C]\<close> and \<open>-1\<close>
  for a function that is not a Sol closure, \<open>=?\<close> for a missing source); \<open>l\<close>: the
  line of the current instruction of a script frame, else \<open>-1\<close>; \<open>u\<close>: the numbers
  of upvalues and parameters and the vararg flag; \<open>t\<close>: the tail-call flag; \<open>n\<close>: the
  name that \<^verbatim>\<open>funcnamefromcall\<close> finds for the caller unless the frame is a tail call,
  empty otherwise; \<open>r\<close>: the transfer information when the frame has it, else zeros.
  \<open>getinfo_closure\<close> is the closure that \<^verbatim>\<open>sol_getinfo\<close> passes on for a function
  value.
\<close>

definition S_fields :: "sol_Debug \<Rightarrow> string \<times> nat \<times> string \<times> string \<times> int \<times> int" where
  "S_fields ar =
     (ar_source ar, ar_srclen ar, ar_short_src ar, ar_what ar, ar_linedefined ar,
      ar_lastlinedefined ar)"

definition u_fields :: "sol_Debug \<Rightarrow> nat \<times> int \<times> bool" where
  "u_fields ar = (ar_nups ar, ar_nparams ar, ar_isvararg ar)"

definition n_fields :: "sol_Debug \<Rightarrow> string \<times> string option" where
  "n_fields ar = (ar_namewhat ar, ar_name ar)"

definition r_fields :: "sol_Debug \<Rightarrow> int \<times> int" where
  "r_fields ar = (ar_ftransfer ar, ar_ntransfer ar)"

definition expect_S ::
  "(string \<Rightarrow> nat \<Rightarrow> string) \<Rightarrow> Closure option
     \<Rightarrow> string \<times> nat \<times> string \<times> string \<times> int \<times> int" where
  "expect_S chunkid f =
     (case f of
        Some (LClosure p n) \<Rightarrow>
          (let src = (case source p of Some s \<Rightarrow> s | None \<Rightarrow> ''=?'')
           in (src, length src, chunkid src (length src),
               if linedefined p = 0 then ''main'' else ''Sol'',
               linedefined p, lastlinedefined p))
      | _ \<Rightarrow> (''=[C]'', 4, chunkid ''=[C]'' 4, ''C'', - 1, - 1))"

definition expect_l :: "macros \<Rightarrow> sol_State \<Rightarrow> nat option \<Rightarrow> int option" where
  "expect_l K L ci =
     (case ci of
        None \<Rightarrow> Some (- 1)
      | Some i \<Rightarrow>
          if isSol (cis L ! i)
          then (case ci_func L (cis L ! i) of
                  None \<Rightarrow> None
                | Some p \<Rightarrow> solG_getfuncline K p (savedpc (cis L ! i) - 1))
          else Some (- 1))"

definition expect_u :: "Closure option \<Rightarrow> nat \<times> int \<times> bool" where
  "expect_u f =
     (case f of
        None \<Rightarrow> (0, 0, True)
      | Some (CClosure n) \<Rightarrow> (n, 0, True)
      | Some (LClosure p n) \<Rightarrow> (n, numparams p, is_vararg p))"

definition expect_t :: "sol_State \<Rightarrow> nat option \<Rightarrow> bool" where
  "expect_t L ci =
     (case ci of None \<Rightarrow> False | Some i \<Rightarrow> CIST_TAIL \<in> callstatus (cis L ! i))"

definition expect_n ::
  "(Proto \<Rightarrow> int \<Rightarrow> (string \<times> string) option) \<Rightarrow> sol_State \<Rightarrow> nat option
     \<Rightarrow> string \<times> string option" where
  "expect_n fnfc L ci =
     (case ci of
        None \<Rightarrow> ([], None)
      | Some i \<Rightarrow>
          if CIST_TAIL \<in> callstatus (cis L ! i) then ([], None)
          else (case funcnamefromcall fnfc L (int i + 1) of
                  Some (Some (what, name)) \<Rightarrow> (what, Some name)
                | _ \<Rightarrow> ([], None)))"

definition expect_r :: "sol_State \<Rightarrow> nat option \<Rightarrow> int \<times> int" where
  "expect_r L ci =
     (case ci of
        None \<Rightarrow> (0, 0)
      | Some i \<Rightarrow>
          if CIST_TRAN \<in> callstatus (cis L ! i)
          then (ftransfer (cis L ! i), ntransfer (cis L ! i)) else (0, 0))"

definition getinfo_closure :: "TValue \<Rightarrow> Closure option" where
  "getinfo_closure fn = (if ttisclosure fn then clvalue fn else None)"

section \<open>Properties\<close>

subsection \<open>Line information\<close>

lemmas getfuncline_eval =
  solG_getfuncline_def getbaseline_def getfuncline_walk.simps getbaseline_adjust.simps
  rd_def scenario1_def sizeabslineinfo_def cast_uint_def cast_int_def

text \<open>
  C1 (as amended). The first scenario has five instructions; when \<open>MAXIWTHABS\<close> is larger
  than their number, \<^verbatim>\<open>solG_getfuncline\<close> returns the lines 10, 11, 13, 15, 12 for the
  program counters 0 to 4, and the program counter 5 lies outside \<open>lineinfo\<close>.
\<close>

theorem getfuncline_scenario1:
  assumes "5 < MAXIWTHABS K" and "MAXIWTHABS K < 2 ^ 31"
  shows "map (solG_getfuncline K (scenario1 K)) [0, 1, 2, 3, 4]
           = [Some 10, Some 11, Some 13, Some 15, Some 12]
         \<and> solG_getfuncline K (scenario1 K) 5 = None"
  using assms by (simp add: getfuncline_eval)

theorem getfuncline_scenario1_witness:
  "5 < MAXIWTHABS sol_macros \<and> MAXIWTHABS sol_macros < 2 ^ 31 \<and>
   map (solG_getfuncline sol_macros (scenario1 sol_macros)) [0, 1, 2, 3, 4]
     = [Some 10, Some 11, Some 13, Some 15, Some 12] \<and>
   solG_getfuncline sol_macros (scenario1 sol_macros) 5 = None"
proof -
  have h: "5 < MAXIWTHABS sol_macros" "MAXIWTHABS sol_macros < 2 ^ 31"
    by (simp_all add: sol_macros_def)
  from getfuncline_scenario1 [OF h] h show ?thesis by simp
qed

text \<open>
  C1 as stated fails: the lines for the program counters from 0 are not
  10, 10, 11, 13, 15, 12 (the second one is 11, and there is no sixth instruction).
\<close>

theorem getfuncline_scenario1_counterexample:
  "map (solG_getfuncline sol_macros (scenario1 sol_macros)) [0, 1, 2, 3, 4, 5]
     \<noteq> [Some 10, Some 10, Some 11, Some 13, Some 15, Some 12]"
  by (simp add: getfuncline_eval sol_macros_def)

lemma adjust_finds:
  assumes "- 1 \<le> i" "i < int (length ab)" "ab \<noteq> []" "abs_pc (ab ! 0) \<le> pc"
    and "0 \<le> i \<longrightarrow> abs_pc (ab ! nat i) \<le> pc"
  shows "\<exists>j. getbaseline_adjust ab pc i = Some j \<and> is_base ab pc j"
  using assms
proof (induction ab pc i rule: getbaseline_adjust.induct)
  case (1 ab pc i)
  show ?case
  proof (cases "i + 1 < int (length ab)")
    case False
    with "1.prems" have "i + 1 = int (length ab)" by simp
    with "1.prems" False have "is_base ab pc i"
      by (cases "i = -1") (auto simp: is_base_def)
    with False show ?thesis by (subst getbaseline_adjust.simps) simp
  next
    case True
    with "1.prems" have r: "rd ab (i + 1) = Some (ab ! nat (i + 1))"
      by (simp add: rd_def)
    show ?thesis
    proof (cases "pc \<ge> abs_pc (ab ! nat (i + 1))")
      case ge: True
      have "\<exists>j. getbaseline_adjust ab pc (i + 1) = Some j \<and> is_base ab pc j"
        using "1.IH" [OF True r ge] "1.prems" True ge by simp
      then show ?thesis using True r ge by (subst getbaseline_adjust.simps) simp
    next
      case lt: False
      from "1.prems" lt have "i \<noteq> - 1" by auto
      with "1.prems" True lt have "is_base ab pc i" by (auto simp: is_base_def)
      then show ?thesis using True r lt by (subst getbaseline_adjust.simps) simp
    qed
  qed
qed

lemma sorted_abs_mono:
  assumes "sorted_wrt (<) (map abs_pc ab)" "i < j" "j < length ab"
  shows "abs_pc (ab ! i) < abs_pc (ab ! j)"
  using assms sorted_wrt_nth_less [of "(<)" "map abs_pc ab" i j] by simp

lemma is_base_unique:
  assumes s: "sorted_wrt (<) (map abs_pc ab)" and a: "is_base ab pc j" and b: "is_base ab pc j'"
  shows "j = j'"
proof -
  have aux: "\<not> j1 < j2" if "is_base ab pc j1" "is_base ab pc j2" for j1 j2
  proof
    assume lt: "j1 < j2"
    from that lt have n: "j1 + 1 < int (length ab)" "0 \<le> j1" "j2 < int (length ab)"
      by (auto simp: is_base_def)
    with that have p: "pc < abs_pc (ab ! nat (j1 + 1))" by (simp add: is_base_def)
    have "abs_pc (ab ! nat (j1 + 1)) \<le> abs_pc (ab ! nat j2)"
    proof (cases "j1 + 1 = j2")
      case True then show ?thesis by simp
    next
      case False
      with lt n have "nat (j1 + 1) < nat j2" "nat j2 < length ab" by auto
      from sorted_abs_mono [OF s this] show ?thesis by simp
    qed
    with p that show False by (simp add: is_base_def)
  qed
  from aux [OF a b] aux [OF b a] show ?thesis by simp
qed

lemma estimate_cast:
  assumes "0 \<le> pc" "pc < 2 ^ 31" "0 < M" "M < 2 ^ 31"
  shows "cast_int (cast_uint pc div cast_uint M - 1) = pc div M - 1"
proof -
  have u: "cast_uint pc = pc" "cast_uint M = M"
    using assms by (simp_all add: cast_uint_def)
  have "0 \<le> pc div M" using assms by (simp add: pos_imp_zdiv_nonneg_iff)
  moreover have "pc div M \<le> pc div 1" using assms by (intro zdiv_mono2) simp_all
  ultimately have "- 1 \<le> pc div M - 1" "pc div M - 1 < 2 ^ 31" using assms by auto
  then show ?thesis
    unfolding u cast_int_def Let_def
    by (cases "pc div M = 0") (simp_all add: zmod_minus1)
qed

lemma getbaseline_valid:
  assumes wf: "wf_lineinfo K f" and li: "lineinfo f = Some li"
    and pc: "0 \<le> pc" "pc < int (length li)"
  shows "getbaseline K f pc =
           (if abslineinfo f = [] \<or> pc < abs_pc (abslineinfo f ! 0)
            then Some (linedefined f, - 1)
            else Some (abs_line (abslineinfo f ! nat (THE j. is_base (abslineinfo f) pc j)),
                       abs_pc (abslineinfo f ! nat (THE j. is_base (abslineinfo f) pc j))))
         \<and> (abslineinfo f = [] \<or> pc < abs_pc (abslineinfo f ! 0) \<or>
              is_base (abslineinfo f) pc (THE j. is_base (abslineinfo f) pc j))"
proof (cases "abslineinfo f = [] \<or> pc < abs_pc (abslineinfo f ! 0)")
  case True
  then show ?thesis
    by (auto simp: getbaseline_def sizeabslineinfo_def rd_def)
next
  case False
  let ?ab = "abslineinfo f"
  let ?i = "pc div MAXIWTHABS K - 1"
  from wf li have M: "0 < MAXIWTHABS K" "MAXIWTHABS K < 2 ^ 31" and n: "int (length li) < 2 ^ 31"
    and s: "sorted_wrt (<) (map abs_pc ?ab)"
    and est: "list_all (\<lambda>pc. ?ab = [] \<or> int pc < abs_pc (?ab ! 0) \<or> estimate_ok K ?ab (int pc))
            [0..<length li]"
    by (simp_all add: wf_lineinfo_def)
  from pc have "nat pc \<in> set [0..<length li]" by simp
  with est have "?ab = [] \<or> int (nat pc) < abs_pc (?ab ! 0) \<or> estimate_ok K ?ab (int (nat pc))"
    unfolding list_all_iff by blast
  with False pc have e: "estimate_ok K ?ab pc" by simp
  have c: "cast_int (cast_uint pc div cast_uint (MAXIWTHABS K) - 1) = ?i"
    using estimate_cast [of pc "MAXIWTHABS K"] pc n M by simp
  have "0 \<le> pc div MAXIWTHABS K" using pc M by (simp add: pos_imp_zdiv_nonneg_iff)
  then have i1: "- 1 \<le> ?i" by simp
  from e i1 False have i2: "?i < int (length ?ab)" "0 \<le> ?i \<longrightarrow> abs_pc (?ab ! nat ?i) \<le> pc"
    by (auto simp: estimate_ok_def Let_def)
  from False have ne: "?ab \<noteq> []" "abs_pc (?ab ! 0) \<le> pc" by auto
  from adjust_finds [OF i1 i2(1) ne i2(2)]
  obtain j where j: "getbaseline_adjust ?ab pc ?i = Some j" "is_base ?ab pc j" by blast
  have the: "(THE j. is_base ?ab pc j) = j"
    using j(2) is_base_unique [OF s] by blast
  from j(2) have r: "rd ?ab j = Some (?ab ! nat j)" by (simp add: is_base_def rd_def)
  from M have M0: "cast_uint (MAXIWTHABS K) \<noteq> 0" by (simp add: cast_uint_def)
  from ne have r0: "rd ?ab 0 = Some (?ab ! 0)" by (simp add: rd_def)
  show ?thesis
    using False ne M0 j r r0 by (simp add: getbaseline_def sizeabslineinfo_def c the)
qed

lemma getbaseline_next:
  assumes wf: "wf_lineinfo K f" and li: "lineinfo f = Some li"
    and pc: "0 \<le> pc" "pc + 1 < int (length li)"
    and na: "li ! nat (pc + 1) \<noteq> ABSLINEINFO K"
  shows "getbaseline K f (pc + 1) = getbaseline K f pc"
proof -
  let ?ab = "abslineinfo f"
  from wf li have s: "sorted_wrt (<) (map abs_pc ?ab)"
    and an: "list_all (\<lambda>pc. (li ! pc = ABSLINEINFO K) = (int pc \<in> set (map abs_pc ?ab)))
            [0..<length li]"
    by (simp_all add: wf_lineinfo_def)
  from pc have "nat (pc + 1) \<in> set [0..<length li]" by simp
  with an have "(li ! nat (pc + 1) = ABSLINEINFO K) = (int (nat (pc + 1)) \<in> set (map abs_pc ?ab))"
    unfolding list_all_iff by blast
  with na pc have notanchor: "pc + 1 \<notin> abs_pc ` set ?ab" by simp
  have nth_ne: "abs_pc (?ab ! k) \<noteq> pc + 1" if "k < length ?ab" for k
    using notanchor that by (metis image_eqI nth_mem)
  from pc have pc1: "0 \<le> pc + 1" "pc < int (length li)" by simp_all
  note A = getbaseline_valid [OF wf li pc(1) pc1(2)]
  note B = getbaseline_valid [OF wf li pc1(1) pc(2)]
  show ?thesis
  proof (cases "?ab = []")
    case True
    with A B show ?thesis by simp
  next
    case ne: False
    then have "abs_pc (?ab ! 0) \<noteq> pc + 1" using nth_ne [of 0] by simp
    then have same: "(pc + 1 < abs_pc (?ab ! 0)) = (pc < abs_pc (?ab ! 0))" by auto
    show ?thesis
    proof (cases "pc < abs_pc (?ab ! 0)")
      case True
      with A B same show ?thesis by simp
    next
      case False
      let ?j = "THE j. is_base ?ab pc j"
      let ?j' = "THE j. is_base ?ab (pc + 1) j"
      from A False ne have a: "is_base ?ab pc ?j" by simp
      from B False ne same have b: "is_base ?ab (pc + 1) ?j'" by simp
      have "is_base ?ab (pc + 1) ?j"
      proof -
        define j where "j = ?j"
        from a have j: "0 \<le> j" "j < int (length ?ab)" "abs_pc (?ab ! nat j) \<le> pc"
          "j + 1 < int (length ?ab) \<longrightarrow> pc < abs_pc (?ab ! nat (j + 1))"
          by (simp_all add: is_base_def j_def)
        have "pc + 1 < abs_pc (?ab ! nat (j + 1))" if lt: "j + 1 < int (length ?ab)"
        proof -
          from lt j have "nat (j + 1) < length ?ab" by simp
          from nth_ne [OF this] j(4) lt show ?thesis by simp
        qed
        with j have "is_base ?ab (pc + 1) j" by (simp add: is_base_def)
        then show ?thesis by (simp add: j_def)
      qed
      with b have "?j' = ?j" using is_base_unique [OF s] by blast
      with A B False same ne show ?thesis by simp
    qed
  qed
qed

lemma walk_step:
  assumes "- 1 \<le> basepc" "basepc \<le> pc" "pc + 1 < int (length li)"
  shows "\<exists>v. getfuncline_walk li basepc pc b = Some v \<and>
             getfuncline_walk li basepc (pc + 1) b = Some (v + li ! nat (pc + 1))"
  using assms
proof (induction li basepc pc b rule: getfuncline_walk.induct)
  case (1 li basepc pc baseline)
  show ?case
  proof (cases "basepc < pc")
    case True
    with "1.prems" have r: "rd li (basepc + 1) = Some (li ! nat (basepc + 1))"
      by (simp add: rd_def)
    from "1.IH" [OF True r] "1.prems" True
    obtain v where v: "getfuncline_walk li (basepc + 1) pc (baseline + li ! nat (basepc + 1)) = Some v"
      "getfuncline_walk li (basepc + 1) (pc + 1) (baseline + li ! nat (basepc + 1))
         = Some (v + li ! nat (pc + 1))"
      by auto
    from True have lt1: "basepc < pc + 1" by simp
    show ?thesis
      using v r True lt1
      by (subst getfuncline_walk.simps, subst (2) getfuncline_walk.simps) simp
  next
    case False
    with "1.prems" have eq: "basepc = pc" by simp
    with "1.prems" have r: "rd li (pc + 1) = Some (li ! nat (pc + 1))" by (simp add: rd_def)
    have w0: "getfuncline_walk li pc pc baseline = Some baseline"
      by (subst getfuncline_walk.simps) simp
    have w1: "getfuncline_walk li (pc + 1) (pc + 1) (baseline + li ! nat (pc + 1))
                = Some (baseline + li ! nat (pc + 1))"
      by (subst getfuncline_walk.simps) simp
    have "getfuncline_walk li pc (pc + 1) baseline = Some (baseline + li ! nat (pc + 1))"
      using r w1 by (subst getfuncline_walk.simps) simp
    with w0 eq show ?thesis by simp
  qed
qed


lemma is_base_nat: "is_base ab pc j \<Longrightarrow> nat j < length ab"
  by (auto simp: is_base_def)

lemma is_base_le: "is_base ab pc j \<Longrightarrow> abs_pc (ab ! nat j) \<le> pc"
  by (simp add: is_base_def)

lemma getfuncline_valid:
  assumes wf: "wf_lineinfo K f" and li: "lineinfo f = Some li"
    and pc: "0 \<le> pc" "pc < int (length li)"
  shows "\<exists>bl bp. getbaseline K f pc = Some (bl, bp) \<and> - 1 \<le> bp \<and> bp \<le> pc"
proof -
  note A = getbaseline_valid [OF wf li pc]
  show ?thesis
  proof (cases "abslineinfo f = [] \<or> pc < abs_pc (abslineinfo f ! 0)")
    case True
    with A pc show ?thesis by auto
  next
    case False
    let ?j = "THE j. is_base (abslineinfo f) pc j"
    from A False have b: "is_base (abslineinfo f) pc ?j" by simp
    then have n: "nat ?j < length (abslineinfo f)" by (rule is_base_nat)
    from wf li have "list_all (\<lambda>e. 0 \<le> abs_pc e \<and> abs_pc e < int (length li)) (abslineinfo f)"
      by (simp add: wf_lineinfo_def)
    with n have "0 \<le> abs_pc (abslineinfo f ! nat ?j)"
      unfolding list_all_iff using nth_mem by blast
    with A False is_base_le [OF b] show ?thesis by simp
  qed
qed

text \<open>
  C2. For a prototype with well-formed line information and two adjacent instructions
  \<open>pc\<close> and \<open>pc + 1\<close>, both calls of \<^verbatim>\<open>solG_getfuncline\<close> return a line, and
  \<^verbatim>\<open>changedline\<close> returns true exactly when the two lines differ.
\<close>

theorem changedline_adjacent:
  assumes wf: "wf_lineinfo K p" and pc: "0 \<le> pc" "pc + 1 < sizecode p"
  shows "\<exists>a b. solG_getfuncline K p pc = Some a \<and> solG_getfuncline K p (pc + 1) = Some b \<and>
               changedline K p pc (pc + 1) = Some (a \<noteq> b)"
proof (cases "lineinfo p")
  case None
  then show ?thesis by (simp add: solG_getfuncline_def changedline_def)
next
  case (Some li)
  with wf have len: "length (code p) = length li" by (simp add: wf_lineinfo_def)
  with pc have pcs: "pc < int (length li)" "pc + 1 < int (length li)" "0 \<le> pc + 1"
    by (simp_all add: sizecode_def)
  from getfuncline_valid [OF wf Some pc(1) pcs(1)]
  obtain bl bp where base: "getbaseline K p pc = Some (bl, bp)" "- 1 \<le> bp" "bp \<le> pc" by blast
  from walk_step [OF base(2,3) pcs(2)]
  obtain a where a: "getfuncline_walk li bp pc bl = Some a"
    "getfuncline_walk li bp (pc + 1) bl = Some (a + li ! nat (pc + 1))" by blast
  have ga: "solG_getfuncline K p pc = Some a"
    using Some base a by (simp add: solG_getfuncline_def)
  from getfuncline_valid [OF wf Some pcs(3) pcs(2)]
  obtain bl' bp' where base': "getbaseline K p (pc + 1) = Some (bl', bp')" "- 1 \<le> bp'"
    "bp' \<le> pc + 1" by blast
  have "\<exists>b. getfuncline_walk li bp' (pc + 1) bl' = Some b"
  proof (cases "bp' = pc + 1")
    case True
    then show ?thesis by (subst getfuncline_walk.simps) simp
  next
    case False
    with base' have "bp' \<le> pc" by simp
    from walk_step [OF base'(2) this pcs(2)] show ?thesis by blast
  qed
  then obtain b where b: "getfuncline_walk li bp' (pc + 1) bl' = Some b" by blast
  have gb: "solG_getfuncline K p (pc + 1) = Some b"
    using Some base' b by (simp add: solG_getfuncline_def)
  have slow: "changedline_slow K p pc (pc + 1) = Some (a \<noteq> b)"
    using ga gb by (simp add: changedline_slow_def)
  have r: "rd li (pc + 1) = Some (li ! nat (pc + 1))" using pcs by (simp add: rd_def)
  have loop: "changedline_loop K li pc (pc + 1) 0 =
      (if li ! nat (pc + 1) = ABSLINEINFO K then Some None
       else Some (Some (li ! nat (pc + 1) \<noteq> 0)))"
    using r by (subst changedline_loop.simps) simp
  have "changedline K p pc (pc + 1) = Some (a \<noteq> b)"
  proof (cases "li ! nat (pc + 1) = ABSLINEINFO K")
    case True
    with loop slow Some show ?thesis by (simp add: changedline_def)
  next
    case False
    from getbaseline_next [OF wf Some pc(1) pcs(2) False] base base'
    have "bl' = bl" "bp' = bp" by simp_all
    with a b have "b = a + li ! nat (pc + 1)" by simp
    with False loop slow Some show ?thesis by (simp add: changedline_def)
  qed
  with ga gb show ?thesis by blast
qed

theorem changedline_adjacent_witness:
  "wf_lineinfo sol_macros (scenario1 sol_macros) \<and> (0::int) \<le> 1 \<and>
   1 + 1 < sizecode (scenario1 sol_macros) \<and>
   solG_getfuncline sol_macros (scenario1 sol_macros) 1 = Some 11 \<and>
   solG_getfuncline sol_macros (scenario1 sol_macros) (1 + 1) = Some 13 \<and>
   changedline sol_macros (scenario1 sol_macros) 1 (1 + 1) = Some True"
proof -
  have h: "wf_lineinfo sol_macros (scenario1 sol_macros)"
    by (simp add: wf_lineinfo_def scenario1_def sol_macros_def estimate_ok_def upt_rec
        numeral_nat)
  have h2: "(0::int) \<le> 1" "1 + 1 < sizecode (scenario1 sol_macros)"
    by (simp_all add: sizecode_def scenario1_def)
  have g: "solG_getfuncline sol_macros (scenario1 sol_macros) 1 = Some 11"
      "solG_getfuncline sol_macros (scenario1 sol_macros) (1 + 1) = Some 13"
    by (simp_all add: getfuncline_eval sol_macros_def)
  from changedline_adjacent [OF h h2] g h h2 show ?thesis by simp
qed

subsection \<open>Symbolic execution\<close>

lemma fold_max_snoc: "fold max (xs @ [d]) (a::int) = max d (fold max xs a)"
  by simp

lemma jmptarget_at_Suc:
  "jmptarget_at cd lastpc (Suc n) = jmp_update (cd ! n) (int n) lastpc (jmptarget_at cd lastpc n)"
  by (auto simp: jmptarget_at_def jumps_before_def jmp_update_def Let_def max_def)

lemma jmp_update_not_jmp: "GET_OPCODE i \<noteq> OP_JMP \<Longrightarrow> jmp_update i pc lastpc j = j"
  by (simp add: jmp_update_def)

lemma changes_not_jmp: "changes_reg t i reg \<Longrightarrow> GET_OPCODE i \<noteq> OP_JMP"
  by (auto simp: changes_reg_def Let_def split: if_splits)

lemma last_write_Suc:
  "last_write t cd reg lastpc (Suc n) =
     (if changes_reg t (cd ! n) reg then filterpc (int n) (jmptarget_at cd lastpc (Suc n))
      else last_write t cd reg lastpc n)"
proof (cases "changes_reg t (cd ! n) reg")
  case True
  then have w: "writes t cd reg (Suc n) = writes t cd reg n @ [n]" by (simp add: writes_def)
  have j: "jmptarget_at cd lastpc (Suc n) = jmptarget_at cd lastpc n"
    using changes_not_jmp [OF True] by (simp add: jmptarget_at_Suc jmp_update_not_jmp)
  show ?thesis using True
    by (simp add: last_write_def w j filterpc_def)
next
  case False
  then have w: "writes t cd reg (Suc n) = writes t cd reg n" by (simp add: writes_def)
  show ?thesis using False by (simp add: last_write_def w)
qed

lemma findsetreg_loop_inv:
  assumes "0 \<le> pc" "pc \<le> lastpc" "lastpc \<le> int (length cd)"
    and "setreg = last_write t cd reg lastpc (nat pc)"
    and "jt = jmptarget_at cd lastpc (nat pc)"
  shows "findsetreg_loop t cd lastpc reg pc setreg jt = Some (last_write t cd reg lastpc (nat lastpc))"
  using assms
proof (induction t cd lastpc reg pc setreg jt rule: findsetreg_loop.induct)
  case (1 t cd lastpc reg pc setreg jt)
  show ?case
  proof (cases "pc < lastpc")
    case False
    with "1.prems" have "pc = lastpc" by simp
    with "1.prems" show ?thesis by (subst findsetreg_loop.simps) simp
  next
    case True
    with "1.prems" have r: "rd cd pc = Some (cd ! nat pc)" by (simp add: rd_def)
    let ?i = "cd ! nat pc"
    let ?jt = "jmp_update ?i pc lastpc jt"
    let ?sr = "if changes_reg t ?i reg then filterpc pc ?jt else setreg"
    from "1.prems" have n: "nat (pc + 1) = Suc (nat pc)" "int (nat pc) = pc" by simp_all
    have j: "?jt = jmptarget_at cd lastpc (nat (pc + 1))"
      using "1.prems" n by (simp add: jmptarget_at_Suc)
    have s: "?sr = last_write t cd reg lastpc (nat (pc + 1))"
      using "1.prems" n j by (simp add: last_write_Suc)
    have "findsetreg_loop t cd lastpc reg (pc + 1) ?sr ?jt
            = Some (last_write t cd reg lastpc (nat lastpc))"
      using "1.IH" [OF True r refl _ _ _ s j] "1.prems" True by simp
    then show ?thesis using True r by (subst findsetreg_loop.simps) (simp add: Let_def)
  qed
qed

text \<open>
  C3 (as amended). \<^verbatim>\<open>findsetreg\<close> reads the instruction at \<open>lastpc\<close> and takes one off
  \<open>lastpc\<close> when that instruction is a \<^verbatim>\<open>testMMMode\<close> one; it then scans the
  instructions before this limit. Its result is decided by the last instruction that
  changes \<open>reg\<close> alone: the result is that instruction's \<open>pc\<close> when the \<open>pc\<close> is at or
  after the jump target in force there, and \<open>-1\<close> when it is before that target (an earlier
  accepted write is forgotten) or when no instruction changes \<open>reg\<close>.
\<close>

theorem findsetreg_last_write:
  "findsetreg testAMode testMMMode p lastpc reg =
     (if 0 \<le> lastpc \<and> lastpc < sizecode p then
        (let lim = findsetreg_limit testMMMode (code p ! nat lastpc) lastpc
         in Some (last_write testAMode (code p) reg lim (nat lim)))
      else None)"
proof (cases "0 \<le> lastpc \<and> lastpc < sizecode p")
  case False
  then show ?thesis by (auto simp: findsetreg_def rd_def sizecode_def)
next
  case True
  let ?lim = "findsetreg_limit testMMMode (code p ! nat lastpc) lastpc"
  from True have r: "rd (code p) lastpc = Some (code p ! nat lastpc)"
    by (simp add: rd_def sizecode_def)
  have lim: "- 1 \<le> ?lim" "?lim \<le> int (length (code p))"
    using True by (simp_all add: findsetreg_limit_def sizecode_def)
  have "findsetreg_loop testAMode (code p) ?lim reg 0 (- 1) 0
          = Some (last_write testAMode (code p) reg ?lim (nat ?lim))"
  proof (cases "?lim = - 1")
    case True
    have "last_write testAMode (code p) reg (- 1) 0 = - 1"
      by (simp add: last_write_def writes_def)
    then show ?thesis unfolding True by (subst findsetreg_loop.simps) simp
  next
    case False
    with lim have "0 \<le> ?lim" by simp
    moreover have "- 1 = last_write testAMode (code p) reg ?lim (nat 0)"
      by (simp add: last_write_def writes_def)
    moreover have "0 = jmptarget_at (code p) ?lim (nat 0)"
      by (simp add: jmptarget_at_def jumps_before_def)
    ultimately show ?thesis using lim(2)
      by (intro findsetreg_loop_inv) simp_all
  qed
  with True r show ?thesis by (simp add: findsetreg_def Let_def)
qed

lemmas findsetreg_eval =
  findsetreg_def findsetreg_limit_def findsetreg_loop.simps rd_def cond_assign_def instr_def
  changes_reg_def jmp_update_def filterpc_def sample_testAMode_def sample_testMMMode_def

theorem findsetreg_last_write_witness:
  "findsetreg sample_testAMode sample_testMMMode cond_assign 4 0 = Some (- 1) \<and>
   findsetreg sample_testAMode sample_testMMMode cond_assign 2 0 = Some 0"
proof -
  have a: "last_write sample_testAMode (code cond_assign) 0 4 4 = - 1"
    by (simp add: last_write_def writes_def jmptarget_at_def jumps_before_def cond_assign_def
        instr_def changes_reg_def sample_testAMode_def upt_rec numeral_nat)
  have b: "last_write sample_testAMode (code cond_assign) 0 2 2 = 0"
    by (simp add: last_write_def writes_def jmptarget_at_def jumps_before_def cond_assign_def
        instr_def changes_reg_def sample_testAMode_def upt_rec numeral_nat)
  have l: "findsetreg_limit sample_testMMMode (code cond_assign ! 4) 4 = 4"
     "findsetreg_limit sample_testMMMode (code cond_assign ! 2) 2 = 2"
    by (simp_all add: findsetreg_limit_def cond_assign_def instr_def sample_testMMMode_def)
  have s: "sizecode cond_assign = 5" by (simp add: sizecode_def cond_assign_def)
  show ?thesis
    using findsetreg_last_write [of sample_testAMode sample_testMMMode cond_assign 4 0]
      findsetreg_last_write [of sample_testAMode sample_testMMMode cond_assign 2 0]
    by (simp add: a b l s Let_def)
qed

text \<open>
  C3 as stated fails: in the sample the write at 0 is accepted and the write at 3 lies
  before the jump target 4; the last accepted write is 0, but \<^verbatim>\<open>findsetreg\<close> returns
  \<open>-1\<close>.
\<close>

theorem findsetreg_counterexample:
  "findsetreg sample_testAMode sample_testMMMode cond_assign 4 0 = Some (- 1)
   \<and> findsetreg_last_accepted sample_testAMode sample_testMMMode cond_assign 4 0 = Some 0"
  by (simp add: findsetreg_eval findsetreg_last_accepted_def upt_rec numeral_nat)

subsection \<open>Tracing\<close>

lemma traceexec_count_shape:
  "traceexec_count h counthook L = (r, ds) \<Longrightarrow> ds = [] \<or> ds = [D_hook SOL_HOOKCOUNT (- 1)]"
  by (auto simp: traceexec_count_def split: if_splits)

lemma traceexec_line_shape:
  "traceexec_line K h p m pc L = Some (r, ds) \<Longrightarrow> ds = [] \<or> (\<exists>n. ds = [D_hook SOL_HOOKLINE n])"
  by (auto simp: traceexec_line_def Let_def split: if_splits option.splits bool.splits sum.splits)

lemma traceexec_hooks_shape:
  assumes "traceexec_hooks K h p m counthook pc L = Some (r, L', ds)"
  shows "\<exists>cs ls. ds = cs @ ls \<and> (cs = [] \<or> cs = [D_hook SOL_HOOKCOUNT (- 1)])
            \<and> (ls = [] \<or> (\<exists>n. ls = [D_hook SOL_HOOKLINE n]))"
proof -
  obtain r1 ds1 where c: "traceexec_count h counthook L = (r1, ds1)"
    by (cases "traceexec_count h counthook L")
  note s1 = traceexec_count_shape [OF c]
  show ?thesis
  proof (cases r1)
    case (Inl t)
    with assms c have "ds = ds1 @ []" by (auto simp: traceexec_hooks_def split: prod.splits)
    with s1 show ?thesis by blast
  next
    case (Inr L1)
    show ?thesis
    proof (cases "traceexec_line K h p m pc L1")
      case None
      with assms c Inr show ?thesis by (simp add: traceexec_hooks_def)
    next
      case (Some a)
      obtain r2 ds2 where a: "a = (r2, ds2)" by (cases a)
      note s2 = traceexec_line_shape [OF Some [unfolded a]]
      from assms c Inr Some a have "ds = ds1 @ ds2"
        by (auto simp: traceexec_hooks_def split: sum.splits prod.splits option.splits)
      with s1 s2 show ?thesis by blast
    qed
  qed
qed

lemma traceexec_shape:
  assumes "solG_traceexec K isIT h L pc = Some (r, L', ds)"
  shows "\<exists>cs ls. ds = cs @ ls \<and> (cs = [] \<or> cs = [D_hook SOL_HOOKCOUNT (- 1)])
            \<and> (ls = [] \<or> (\<exists>n. ls = [D_hook SOL_HOOKLINE n]))"
  using assms
  by (auto simp: solG_traceexec_def Let_def
      split: list.splits option.splits if_splits dest!: traceexec_hooks_shape)

text \<open>
  C4. In one invocation of \<^verbatim>\<open>solG_traceexec\<close> at most one count hook and at most one line
  hook are dispatched, no count hook is dispatched after a line hook, and nothing else is
  dispatched.
\<close>

theorem traceexec_dispatches:
  assumes "solG_traceexec K isIT solD_hook L pc = Some (r, L', ds)"
  shows "length (filter (is_event SOL_HOOKCOUNT) ds) \<le> 1
       \<and> length (filter (is_event SOL_HOOKLINE) ds) \<le> 1
       \<and> count_before_line ds
       \<and> list_all (\<lambda>d. is_event SOL_HOOKCOUNT d \<or> is_event SOL_HOOKLINE d) ds"
proof -
  from traceexec_shape [OF assms] obtain cs ls where
    ds: "ds = cs @ ls" and cs: "cs = [] \<or> cs = [D_hook SOL_HOOKCOUNT (- 1)]"
    and ls: "ls = [] \<or> (\<exists>n. ls = [D_hook SOL_HOOKLINE n])" by blast
  from cs ls show ?thesis unfolding ds by (auto simp: is_event_def)
qed

lemma sample_lines:
  "solG_getfuncline sol_macros (scenario1 sol_macros) 1 = Some 11"
  "changedline sol_macros (scenario1 sol_macros) 0 1 = Some True"
  by (simp_all add: getfuncline_eval sol_macros_def changedline_def changedline_loop.simps c_div_def)

theorem traceexec_dispatches_witness:
  "(\<exists>r L'. solG_traceexec sol_macros (\<lambda>i. False) hook_returns sample_state 1
            = Some (r, L', [D_hook SOL_HOOKCOUNT (- 1), D_hook SOL_HOOKLINE 11]))
   \<and> length (filter (is_event SOL_HOOKCOUNT) [D_hook SOL_HOOKCOUNT (- 1), D_hook SOL_HOOKLINE 11]) \<le> 1
   \<and> length (filter (is_event SOL_HOOKLINE) [D_hook SOL_HOOKCOUNT (- 1), D_hook SOL_HOOKLINE 11]) \<le> 1
   \<and> count_before_line [D_hook SOL_HOOKCOUNT (- 1), D_hook SOL_HOOKLINE 11]"
proof -
  have run: "\<exists>r L'. solG_traceexec sol_macros (\<lambda>i. False) hook_returns sample_state 1
            = Some (r, L', [D_hook SOL_HOOKCOUNT (- 1), D_hook SOL_HOOKLINE 11])"
    by (simp add: solG_traceexec_def Let_def traceexec_hooks_def traceexec_count_def
        traceexec_line_def traceexec_yield_def hook_returns_def resethookcount_def pcRel_def
        sample_lines [unfolded scenario1_def sol_macros_def, simplified]
        sample_state_def sample_frame_def rd_def sizecode_def scenario1_def
        ci_func_def cast_byte_def sol_macros_def)
  then obtain r L' where
    "solG_traceexec sol_macros (\<lambda>i. False) hook_returns sample_state 1
            = Some (r, L', [D_hook SOL_HOOKCOUNT (- 1), D_hook SOL_HOOKLINE 11])" by blast
  from traceexec_dispatches [OF this] run show ?thesis by blast
qed

text \<open>
  C5. For a frame at the first instruction of its function (\<open>savedpc\<close> equal to the
  start of the code): when the function is not vararg and the frame is not marked
  \<open>HOOKYIELD\<close>, \<^verbatim>\<open>solG_tracecall\<close> sets \<open>trap\<close> to 1 and then calls \<^verbatim>\<open>solD_hookcall\<close>
  exactly once, on the state with the trap set; when the function is vararg it sets
  \<open>trap\<close> to 1, dispatches nothing and returns 0.
\<close>

theorem tracecall_first_instruction:
  assumes "cis L = ci # previous" and "ci_func L ci = Some p" and "savedpc ci = 0"
  shows "(\<not> is_vararg p \<and> CIST_HOOKYIELD \<notin> callstatus ci \<longrightarrow>
            trap (hd (cis (L\<lparr>cis := ci\<lparr>trap := 1\<rparr> # previous\<rparr>))) = 1 \<and>
            solG_tracecall solD_hookcall L =
              (case solD_hookcall (L\<lparr>cis := ci\<lparr>trap := 1\<rparr> # previous\<rparr>) of
                 Inl (st, L2) \<Rightarrow> Some (Throws st, L2, [D_hookcall])
               | Inr L2 \<Rightarrow> Some (Returns 1, L2, [D_hookcall])))
       \<and> (is_vararg p \<longrightarrow>
            solG_tracecall solD_hookcall L =
              Some (Returns 0, L\<lparr>cis := ci\<lparr>trap := 1\<rparr> # previous\<rparr>, []))"
  using assms by (simp add: solG_tracecall_def Let_def)

theorem tracecall_first_instruction_witness:
  "solG_tracecall hookcall_returns (entry_state (scenario1 sol_macros)) =
     Some (Returns 1,
           (entry_state (scenario1 sol_macros))
             \<lparr>cis := (sample_frame\<lparr>savedpc := 0, trap := 0\<rparr>)\<lparr>trap := 1\<rparr> # [base_frame]\<rparr>,
           [D_hookcall])
   \<and> solG_tracecall hookcall_returns (entry_state vararg_proto) =
     Some (Returns 0,
           (entry_state vararg_proto)
             \<lparr>cis := (sample_frame\<lparr>savedpc := 0, trap := 0\<rparr>)\<lparr>trap := 1\<rparr> # [base_frame]\<rparr>,
           [])"
proof -
  let ?ci = "sample_frame\<lparr>savedpc := 0, trap := 0\<rparr>"
  have c: "cis (entry_state q) = ?ci # [base_frame]" for q by (simp add: entry_state_def)
  have f: "ci_func (entry_state q) ?ci = Some q" for q
    by (simp add: entry_state_def ci_func_def sample_frame_def)
  have s: "savedpc ?ci = 0" by simp
  have v: "\<not> is_vararg (scenario1 sol_macros)" "is_vararg vararg_proto"
    "CIST_HOOKYIELD \<notin> callstatus ?ci"
    by (simp_all add: scenario1_def vararg_proto_def sample_frame_def)
  from tracecall_first_instruction [OF c f s, of "scenario1 sol_macros" hookcall_returns]
    tracecall_first_instruction [OF c f s, of vararg_proto hookcall_returns] v
  show ?thesis by (simp add: hookcall_returns_def)
qed

subsection \<open>Errors\<close>

text \<open>
  C6 (as amended). \<^verbatim>\<open>solG_concaterror\<close> raises a type error with the operation
  \<open>concatenate\<close>; it blames \<open>p1\<close> when \<open>p1\<close> is neither a string nor convertible to a
  string (\<^verbatim>\<open>cvt2str\<close>), and \<open>p2\<close> otherwise.
\<close>

theorem concaterror_operand:
  "blamed (solG_concaterror cvt2str tn vi p1 p2) = (if ttisstring p1 \<or> cvt2str p1 then p2 else p1)
   \<and> opname (solG_concaterror cvt2str tn vi p1 p2) = ''concatenate''
   \<and> message (solG_concaterror cvt2str tn vi p1 p2) =
       ''attempt to concatenate a '' @ tn (blamed (solG_concaterror cvt2str tn vi p1 p2))
         @ '' value'' @ vi (blamed (solG_concaterror cvt2str tn vi p1 p2))"
  by (simp add: solG_concaterror_def solG_typeerror_def typeerror_def Let_def)

theorem concaterror_operand_witness:
  "blamed (solG_concaterror ttisnumber (\<lambda>v. ''?'') (\<lambda>v. []) (TBoolean True) (TString ''a''))
     = TBoolean True
   \<and> blamed (solG_concaterror ttisnumber (\<lambda>v. ''?'') (\<lambda>v. []) (TNumber 1) TNil) = TNil
   \<and> message (solG_concaterror ttisnumber (\<lambda>v. ''?'') (\<lambda>v. []) (TNumber 1) TNil)
     = ''attempt to concatenate a ? value''"
  using
    concaterror_operand [of ttisnumber "\<lambda>v. ''?''" "\<lambda>v. []" "TBoolean True" "TString ''a''"]
    concaterror_operand [of ttisnumber "\<lambda>v. ''?''" "\<lambda>v. []" "TNumber 1" TNil]
  by (simp add: ttisstring_def ttisnumber_def)

text \<open>
  C6 as stated fails where numbers are convertible to strings (\<^verbatim>\<open>cvt2str\<close> is
  \<^verbatim>\<open>ttisnumber\<close>, the default of \<^verbatim>\<open>lvm.h\<close>): for \<open>p1 = 1\<close> and \<open>p2 = nil\<close> the operand
  \<open>p1\<close> is not a string, and the error blames \<open>p2\<close>.
\<close>

theorem concaterror_operand_counterexample:
  "blamed (solG_concaterror ttisnumber (\<lambda>v. ''?'') (\<lambda>v. []) (TNumber 1) TNil)
     \<noteq> blamed_nonstring (TNumber 1) TNil"
  by (simp add: solG_concaterror_def solG_typeerror_def typeerror_def Let_def
      blamed_nonstring_def ttisstring_def ttisnumber_def)

subsection \<open>Local variables\<close>

text \<open>
  C7. In a script frame of a vararg function, for \<open>n < 0\<close> with \<open>-n \<le> nextraargs\<close>,
  \<^verbatim>\<open>solG_findlocal\<close> returns the name \<open>(vararg)\<close> and the position
  \<open>func - nextraargs - (n + 1)\<close>; with no extra arguments, index \<open>-1\<close> has no name.
\<close>

theorem findlocal_vararg:
  assumes "i < length (cis L)" and "isSol (cis L ! i)"
    and "ci_func L (cis L ! i) = Some p" and "is_vararg p"
  shows "(n < 0 \<and> - n \<le> nextraargs (cis L ! i) \<longrightarrow>
            solG_findlocal gln L i n =
              Some (Some (''(vararg)'', func (cis L ! i) - nextraargs (cis L ! i) - (n + 1))))
       \<and> (nextraargs (cis L ! i) = 0 \<longrightarrow> solG_findlocal gln L i (- 1) = Some None)"
  using assms by (simp add: solG_findlocal_def findvararg_def Let_def)

lemma vararg_state_frame:
  "0 < length (cis (vararg_state k))"
  "isSol (cis (vararg_state k) ! 0)"
  "ci_func (vararg_state k) (cis (vararg_state k) ! 0) = Some vararg_proto"
  "is_vararg vararg_proto"
  "nextraargs (cis (vararg_state k) ! 0) = k"
  "func (cis (vararg_state k) ! 0) = 5"
  by (simp_all add: vararg_state_def isSol_def sample_frame_def ci_func_def vararg_proto_def)

theorem findlocal_vararg_witness:
  "solG_findlocal no_localname (vararg_state 2) 0 (- 2) = Some (Some (''(vararg)'', 4))
   \<and> solG_findlocal no_localname (vararg_state 2) 0 (- 1) = Some (Some (''(vararg)'', 3))
   \<and> solG_findlocal no_localname (vararg_state 0) 0 (- 1) = Some None"
  using
    findlocal_vararg [where L = "vararg_state 2" and i = 0 and n = "- 2" and gln = no_localname,
      OF vararg_state_frame(1-4)]
    findlocal_vararg [where L = "vararg_state 2" and i = 0 and n = "- 1" and gln = no_localname,
      OF vararg_state_frame(1-4)]
    findlocal_vararg [where L = "vararg_state 0" and i = 0 and n = "- 1" and gln = no_localname,
      OF vararg_state_frame(1-4)]
  by (simp add: vararg_state_frame)

text \<open>
  C10. When \<^verbatim>\<open>solG_findlocal\<close> finds no name, \<^verbatim>\<open>sol_setlocal\<close> returns \<^verbatim>\<open>NULL\<close> and the
  state is unchanged; when it finds a name, the value on top of the stack is stored in
  the position found and popped; and the state changes only when a name is returned.
\<close>

theorem setlocal_no_name:
  "(solG_findlocal gln L i n = Some None \<longrightarrow> sol_setlocal gln L i n = Some (None, L))
   \<and> (\<forall>name pos. solG_findlocal gln L i n = Some (Some (name, pos)) \<longrightarrow>
        sol_setlocal gln L i n =
          Some (Some name,
                L\<lparr>stack := (stack L)(pos := stack L (L_top L - 1)), L_top := L_top L - 1\<rparr>))
   \<and> (\<forall>r L'. sol_setlocal gln L i n = Some (r, L') \<and> L' \<noteq> L \<longrightarrow> r \<noteq> None)"
  by (auto simp: sol_setlocal_def split: option.splits)

lemma vararg_state_findlocal:
  "solG_findlocal no_localname (vararg_state 0) 0 3 = Some None"
  "solG_findlocal no_localname (vararg_state 0) 0 1 = Some (Some (''(temporary)'', 6))"
  by (simp_all add: solG_findlocal_def Let_def vararg_state_def isSol_def sample_frame_def
      ci_func_def no_localname_def)

theorem setlocal_no_name_witness:
  "sol_setlocal no_localname (vararg_state 0) 0 3 = Some (None, vararg_state 0)
   \<and> sol_setlocal no_localname (vararg_state 0) 0 1 =
       Some (Some ''(temporary)'',
             (vararg_state 0)\<lparr>stack := (stack (vararg_state 0))
                                    (6 := stack (vararg_state 0) (L_top (vararg_state 0) - 1)),
                               L_top := L_top (vararg_state 0) - 1\<rparr>)"
  using setlocal_no_name [of no_localname "vararg_state 0" 0 3]
    setlocal_no_name [of no_localname "vararg_state 0" 0 1]
  by (simp add: vararg_state_findlocal)

subsection \<open>Debug information\<close>

lemma loop_field:
  fixes proj :: "sol_Debug \<Rightarrow> 'b"
  assumes eff: "\<And>ar v ar1. auxgetinfo_switch K ch fn L tag ar f ci = Some (v, ar1)
                  \<Longrightarrow> proj ar1 = val"
    and frm: "\<And>c ar v ar1. c \<noteq> tag \<Longrightarrow> auxgetinfo_switch K ch fn L c ar f ci = Some (v, ar1)
                  \<Longrightarrow> proj ar1 = proj ar"
    and run: "auxgetinfo_loop K ch fn L what ar f ci st = Some (s, a)"
  shows "proj a = (if tag \<in> set what then val else proj ar)"
  using run
proof (induction what arbitrary: ar st)
  case Nil
  then show ?case by simp
next
  case (Cons c what)
  from Cons.prems obtain v ar1 where
    sw: "auxgetinfo_switch K ch fn L c ar f ci = Some (v, ar1)" and
    rest: "auxgetinfo_loop K ch fn L what ar1 f ci (if v then st else 0) = Some (s, a)"
    by (auto split: option.splits)
  from Cons.IH [OF rest] have ih: "proj a = (if tag \<in> set what then val else proj ar1)" .
  show ?case
  proof (cases "c = tag")
    case True
    with sw have "proj ar1 = val" using eff by blast
    with ih True show ?thesis by simp
  next
    case False
    with sw have "proj ar1 = proj ar" using frm by blast
    with ih False show ?thesis by auto
  qed
qed

lemma rd_nth: "rd xs (int i) = Some x \<Longrightarrow> xs ! i = x"
  by (auto simp: rd_def split: if_splits)

lemmas sw_unfold = auxgetinfo_switch_def funcinfo_def Let_def

lemma S_eff: "auxgetinfo_switch K ch fn L CHR ''S'' ar f ci = Some (v, ar1)
    \<Longrightarrow> S_fields ar1 = expect_S ch f"
  by (auto simp: sw_unfold S_fields_def expect_S_def numeral_2_eq_2
      split: option.splits Closure.splits)

lemma S_frm: "c \<noteq> CHR ''S'' \<Longrightarrow> auxgetinfo_switch K ch fn L c ar f ci = Some (v, ar1)
    \<Longrightarrow> S_fields ar1 = S_fields ar"
  by (auto simp: sw_unfold S_fields_def split: if_splits option.splits Closure.splits)

lemma l_eff: "auxgetinfo_switch K ch fn L CHR ''l'' ar f ci = Some (v, ar1)
    \<Longrightarrow> Some (ar_currentline ar1) = expect_l K L ci"
  by (auto simp: sw_unfold expect_l_def getcurrentline_def currentpc_def pcRel_def
      dest!: rd_nth split: option.splits if_splits)

lemma l_frm: "c \<noteq> CHR ''l'' \<Longrightarrow> auxgetinfo_switch K ch fn L c ar f ci = Some (v, ar1)
    \<Longrightarrow> Some (ar_currentline ar1) = Some (ar_currentline ar)"
  by (auto simp: sw_unfold split: if_splits option.splits Closure.splits)

lemma u_eff: "auxgetinfo_switch K ch fn L CHR ''u'' ar f ci = Some (v, ar1)
    \<Longrightarrow> u_fields ar1 = expect_u f"
  by (auto simp: sw_unfold u_fields_def expect_u_def nupvalues_def
      split: option.splits Closure.splits)

lemma u_frm: "c \<noteq> CHR ''u'' \<Longrightarrow> auxgetinfo_switch K ch fn L c ar f ci = Some (v, ar1)
    \<Longrightarrow> u_fields ar1 = u_fields ar"
  by (auto simp: sw_unfold u_fields_def split: if_splits option.splits Closure.splits)

lemma t_eff: "auxgetinfo_switch K ch fn L CHR ''t'' ar f ci = Some (v, ar1)
    \<Longrightarrow> ar_istailcall ar1 = expect_t L ci"
  by (auto simp: sw_unfold expect_t_def dest!: rd_nth split: option.splits)

lemma t_frm: "c \<noteq> CHR ''t'' \<Longrightarrow> auxgetinfo_switch K ch fn L c ar f ci = Some (v, ar1)
    \<Longrightarrow> ar_istailcall ar1 = ar_istailcall ar"
  by (auto simp: sw_unfold split: if_splits option.splits Closure.splits)

lemma n_eff: "auxgetinfo_switch K ch fn L CHR ''n'' ar f ci = Some (v, ar1)
    \<Longrightarrow> n_fields ar1 = expect_n fn L ci"
  by (auto simp: sw_unfold n_fields_def expect_n_def getfuncname_def
      dest!: rd_nth split: option.splits if_splits)

lemma n_frm: "c \<noteq> CHR ''n'' \<Longrightarrow> auxgetinfo_switch K ch fn L c ar f ci = Some (v, ar1)
    \<Longrightarrow> n_fields ar1 = n_fields ar"
  by (auto simp: sw_unfold n_fields_def split: if_splits option.splits Closure.splits)

lemma r_eff: "auxgetinfo_switch K ch fn L CHR ''r'' ar f ci = Some (v, ar1)
    \<Longrightarrow> r_fields ar1 = expect_r L ci"
  by (auto simp: sw_unfold r_fields_def expect_r_def dest!: rd_nth split: option.splits if_splits)

lemma r_frm: "c \<noteq> CHR ''r'' \<Longrightarrow> auxgetinfo_switch K ch fn L c ar f ci = Some (v, ar1)
    \<Longrightarrow> r_fields ar1 = r_fields ar"
  by (auto simp: sw_unfold r_fields_def split: if_splits option.splits Closure.splits)

lemma i_ci_frm: "auxgetinfo_switch K ch fn L c ar f ci = Some (v, ar1) \<Longrightarrow> i_ci ar1 = i_ci ar"
  by (auto simp: sw_unfold split: if_splits option.splits Closure.splits)

lemma switch_unrecognized:
  "\<not> recognized c \<Longrightarrow> auxgetinfo_switch K ch fn L c ar f ci = Some (False, ar)"
  by (simp add: recognized_def auxgetinfo_switch_def)

lemma switch_recognized:
  "recognized c \<Longrightarrow> auxgetinfo_switch K ch fn L c ar f ci = Some (v, ar') \<Longrightarrow> v"
  by (auto simp: recognized_def auxgetinfo_switch_def Let_def
      split: if_splits option.splits Closure.splits)

lemma auxgetinfo_loop_filter:
  "auxgetinfo_loop K ch fn L what ar f ci st =
     map_option (\<lambda>(s, a). (if list_all recognized what then st else 0, a))
       (auxgetinfo_loop K ch fn L (filter recognized what) ar f ci st0)"
proof (induction what arbitrary: ar st st0)
  case Nil
  show ?case by simp
next
  case (Cons c what)
  show ?case
  proof (cases "recognized c")
    case False
    from Cons.IH [of ar 0 st0] False show ?thesis
      by (simp add: switch_unrecognized)
  next
    case True
    show ?thesis
    proof (cases "auxgetinfo_switch K ch fn L c ar f ci")
      case None
      with True show ?thesis by simp
    next
      case (Some r)
      obtain v ar' where r: "r = (v, ar')" by (cases r)
      from switch_recognized [OF True Some [unfolded r]] have v by simp
      with Cons.IH [of ar' st st0] True Some r show ?thesis by simp
    qed
  qed
qed

lemma auxgetinfo_loop_status:
  "auxgetinfo_loop K ch fn L what ar f ci st = Some (s, a) \<Longrightarrow>
   s = (if list_all recognized what then st else 0)"
  using auxgetinfo_loop_filter [of K ch fn L what ar f ci st st]
  by (auto split: prod.splits)

lemma switch_no_frame: "auxgetinfo_switch K ch fn L c ar f None \<noteq> None"
proof (cases "recognized c")
  case False
  then show ?thesis by (simp add: switch_unrecognized)
next
  case True
  then consider "c = CHR ''S''" | "c = CHR ''l''" | "c = CHR ''u''" | "c = CHR ''t''"
    | "c = CHR ''n''" | "c = CHR ''r''" | "c = CHR ''f''" | "c = CHR ''L''"
    by (auto simp: recognized_def)
  then show ?thesis
    by cases (auto simp: sw_unfold getfuncname_def split: option.splits Closure.splits)
qed

lemma loop_no_frame: "auxgetinfo_loop K ch fn L what ar f None st \<noteq> None"
proof (induction what arbitrary: ar st)
  case Nil
  show ?case by simp
next
  case (Cons c what)
  from switch_no_frame [of K ch fn L c ar f] obtain v ar1 where
    "auxgetinfo_switch K ch fn L c ar f None = Some (v, ar1)" by auto
  with Cons.IH [of ar1 "if v then st else 0"] show ?case by simp
qed

lemma loop_i_ci:
  "auxgetinfo_loop K ch fn L what ar f ci st = Some (s, a) \<Longrightarrow> i_ci a = i_ci ar"
proof (induction what arbitrary: ar st)
  case Nil
  then show ?case by simp
next
  case (Cons c what)
  from Cons.prems obtain v ar1 where
    sw: "auxgetinfo_switch K ch fn L c ar f ci = Some (v, ar1)" and
    rest: "auxgetinfo_loop K ch fn L what ar1 f ci (if v then st else 0) = Some (s, a)"
    by (auto split: option.splits)
  from Cons.IH [OF rest] i_ci_frm [OF sw] show ?case by simp
qed

lemma getinfo_aux:
  assumes "sol_getinfo K ch fn L what ar = Some (s, a, L')"
  shows "if what \<noteq> [] \<and> hd what = CHR ''>''
         then auxgetinfo K ch fn (L\<lparr>L_top := L_top L - 1\<rparr>) (tl what) ar
                (getinfo_closure (stack L (L_top L - 1))) None = Some (s, a)
         else auxgetinfo K ch fn L what ar
                (getinfo_closure (stack L (func (cis L ! i_ci ar)))) (Some (i_ci ar)) = Some (s, a)"
  using assms
  by (auto simp: sol_getinfo_def getinfo_closure_def Let_def dest!: rd_nth
      split: option.splits if_splits)

text \<open>
  C8 (as amended). \<^verbatim>\<open>auxgetinfo\<close> returns the record that it returns for the option
  string without its unrecognized characters, and an unrecognized character leaves the
  record as it is; in function mode (no frame) it always returns. When it returns, the
  status is 1 if every character is one of \<open>S l u t n r f L\<close> and 0 otherwise, and
  every recognized option of the string is processed whatever the status: the fields of
  each option \<open>S\<close>, \<open>l\<close>, \<open>u\<close>, \<open>t\<close>, \<open>n\<close>, \<open>r\<close> that occurs hold the values
  the option gives them, and the fields of an option that does not occur are untouched.
  \<^verbatim>\<open>sol_getinfo\<close> skips a leading \<open>>\<close> and returns the status and the record of
  \<^verbatim>\<open>auxgetinfo\<close> for the rest of the string.
\<close>

theorem auxgetinfo_tags:
  "auxgetinfo K ch fn L what ar f ci =
     map_option (\<lambda>(s, a). (if list_all recognized what then 1 else 0, a))
       (auxgetinfo K ch fn L (filter recognized what) ar f ci)
   \<and> (\<forall>c. \<not> recognized c \<longrightarrow> auxgetinfo_switch K ch fn L c ar f ci = Some (False, ar))
   \<and> auxgetinfo K ch fn L what ar f None \<noteq> None
   \<and> (\<forall>st ar'. auxgetinfo K ch fn L what ar f ci = Some (st, ar') \<longrightarrow>
         st = (if list_all recognized what then 1 else 0)
         \<and> S_fields ar' = (if CHR ''S'' \<in> set what then expect_S ch f else S_fields ar)
         \<and> Some (ar_currentline ar') =
             (if CHR ''l'' \<in> set what then expect_l K L ci else Some (ar_currentline ar))
         \<and> u_fields ar' = (if CHR ''u'' \<in> set what then expect_u f else u_fields ar)
         \<and> ar_istailcall ar' =
             (if CHR ''t'' \<in> set what then expect_t L ci else ar_istailcall ar)
         \<and> n_fields ar' = (if CHR ''n'' \<in> set what then expect_n fn L ci else n_fields ar)
         \<and> r_fields ar' = (if CHR ''r'' \<in> set what then expect_r L ci else r_fields ar)
         \<and> i_ci ar' = i_ci ar)
   \<and> (\<forall>s a L'. sol_getinfo K ch fn L what ar = Some (s, a, L') \<longrightarrow>
         (if what \<noteq> [] \<and> hd what = CHR ''>''
          then auxgetinfo K ch fn (L\<lparr>L_top := L_top L - 1\<rparr>) (tl what) ar
                 (getinfo_closure (stack L (L_top L - 1))) None = Some (s, a)
          else auxgetinfo K ch fn L what ar
                 (getinfo_closure (stack L (func (cis L ! i_ci ar)))) (Some (i_ci ar))
                 = Some (s, a)))"
proof (intro conjI allI impI)
  show "auxgetinfo K ch fn L what ar f ci =
     map_option (\<lambda>(s, a). (if list_all recognized what then 1 else 0, a))
       (auxgetinfo K ch fn L (filter recognized what) ar f ci)"
    unfolding auxgetinfo_def by (rule auxgetinfo_loop_filter)
next
  fix c assume "\<not> recognized c"
  then show "auxgetinfo_switch K ch fn L c ar f ci = Some (False, ar)"
    by (rule switch_unrecognized)
next
  show "auxgetinfo K ch fn L what ar f None \<noteq> None"
    unfolding auxgetinfo_def by (rule loop_no_frame)
next
  fix st ar' assume "auxgetinfo K ch fn L what ar f ci = Some (st, ar')"
  then have run: "auxgetinfo_loop K ch fn L what ar f ci 1 = Some (st, ar')"
    by (simp add: auxgetinfo_def)
  show "st = (if list_all recognized what then 1 else 0)"
    using run by (rule auxgetinfo_loop_status)
  show "S_fields ar' = (if CHR ''S'' \<in> set what then expect_S ch f else S_fields ar)"
    using S_eff S_frm run by (rule loop_field)
  show "Some (ar_currentline ar') =
             (if CHR ''l'' \<in> set what then expect_l K L ci else Some (ar_currentline ar))"
    using l_eff l_frm run by (rule loop_field)
  show "u_fields ar' = (if CHR ''u'' \<in> set what then expect_u f else u_fields ar)"
    using u_eff u_frm run by (rule loop_field)
  show "ar_istailcall ar' = (if CHR ''t'' \<in> set what then expect_t L ci else ar_istailcall ar)"
    using t_eff t_frm run by (rule loop_field)
  show "n_fields ar' = (if CHR ''n'' \<in> set what then expect_n fn L ci else n_fields ar)"
    using n_eff n_frm run by (rule loop_field)
  show "r_fields ar' = (if CHR ''r'' \<in> set what then expect_r L ci else r_fields ar)"
    using r_eff r_frm run by (rule loop_field)
  show "i_ci ar' = i_ci ar"
    using run by (rule loop_i_ci)
next
  fix s a L' assume "sol_getinfo K ch fn L what ar = Some (s, a, L')"
  then show "if what \<noteq> [] \<and> hd what = CHR ''>''
          then auxgetinfo K ch fn (L\<lparr>L_top := L_top L - 1\<rparr>) (tl what) ar
                 (getinfo_closure (stack L (L_top L - 1))) None = Some (s, a)
          else auxgetinfo K ch fn L what ar
                 (getinfo_closure (stack L (func (cis L ! i_ci ar)))) (Some (i_ci ar))
                 = Some (s, a)"
    by (rule getinfo_aux)
qed

lemma info_lines: "solG_getfuncline sol_macros named_proto 1 = Some 11"
  by (simp add: getfuncline_eval sol_macros_def named_proto_def)

lemma recognized_sample:
  "filter recognized ''S?lutnr'' = ''Slutnr''" "\<not> list_all recognized ''S?lutnr''"
  "\<not> recognized CHR ''?''" "\<not> list_all recognized ''>u''"
  by (simp_all add: recognized_def)


lemma named_fields:
  "source named_proto = Some ''@t.sol''" "linedefined named_proto = 10"
  "lastlinedefined named_proto = 20" "is_vararg named_proto = False"
  "numparams named_proto = 1"
  by (simp_all add: named_proto_def scenario1_def)

lemma sample_switch:
  "auxgetinfo_switch sol_macros plain_chunkid no_funcname info_state CHR ''S'' ar
     (Some (LClosure named_proto 2)) (Some 0) =
   Some (True, ar\<lparr>ar_source := ''@t.sol'', ar_srclen := 6, ar_linedefined := 10,
                   ar_lastlinedefined := 20, ar_what := ''Sol'', ar_short_src := ''@t.sol''\<rparr>)"
  "auxgetinfo_switch sol_macros plain_chunkid no_funcname info_state CHR ''l'' ar
     (Some (LClosure named_proto 2)) (Some 0) = Some (True, ar\<lparr>ar_currentline := 11\<rparr>)"
  "auxgetinfo_switch sol_macros plain_chunkid no_funcname info_state CHR ''u'' ar
     (Some (LClosure named_proto 2)) (Some 0) =
   Some (True, ar\<lparr>ar_nups := 2, ar_isvararg := False, ar_nparams := 1\<rparr>)"
  "auxgetinfo_switch sol_macros plain_chunkid no_funcname info_state CHR ''t'' ar
     (Some (LClosure named_proto 2)) (Some 0) = Some (True, ar\<lparr>ar_istailcall := False\<rparr>)"
  "auxgetinfo_switch sol_macros plain_chunkid no_funcname info_state CHR ''n'' ar
     (Some (LClosure named_proto 2)) (Some 0) =
   Some (True, ar\<lparr>ar_namewhat := ''hook'', ar_name := Some ''?''\<rparr>)"
  "auxgetinfo_switch sol_macros plain_chunkid no_funcname info_state CHR ''r'' ar
     (Some (LClosure named_proto 2)) (Some 0) =
   Some (True, ar\<lparr>ar_ftransfer := 2, ar_ntransfer := 3\<rparr>)"
  by (simp_all add: auxgetinfo_switch_def funcinfo_def Let_def rd_def
      getcurrentline_def ci_func_def currentpc_def pcRel_def isSol_def info_lines
      getfuncname_def funcnamefromcall_def nupvalues_def plain_chunkid_def
      info_state_def sample_frame_def base_frame_def named_fields)


lemma auxgetinfo_sample:
  "auxgetinfo sol_macros plain_chunkid no_funcname info_state ''Slutnr'' stale_ar
     (Some (LClosure named_proto 2)) (Some 0) = Some (1, filled_ar)"
  by (simp add: auxgetinfo_def sample_switch stale_ar_def filled_ar_def)

lemma getinfo_frame:
  "rd (cis info_state) 0 = Some (cis info_state ! 0)"
  "stack info_state (func (cis info_state ! 0)) = TClosure (LClosure named_proto 2)"
  "stack info_state (L_top info_state - 1) = TClosure (LClosure named_proto 2)"
  "i_ci stale_ar = 0"
  by (simp_all add: rd_def info_state_def stale_ar_def sample_frame_def)

theorem auxgetinfo_tags_witness:
  "auxgetinfo sol_macros plain_chunkid no_funcname info_state ''S?lutnr'' stale_ar
     (Some (LClosure named_proto 2)) (Some 0) = Some (0, filled_ar)
   \<and> auxgetinfo_switch sol_macros plain_chunkid no_funcname info_state CHR ''?'' stale_ar
       (Some (LClosure named_proto 2)) (Some 0) = Some (False, stale_ar)
   \<and> sol_getinfo sol_macros plain_chunkid no_funcname info_state ''S?lutnr'' stale_ar
       = Some (0, filled_ar, info_state)"
proof -
  note t = auxgetinfo_tags [of sol_macros plain_chunkid no_funcname info_state
      "''S?lutnr''" stale_ar "Some (LClosure named_proto 2)" "Some 0"]
  from t have "auxgetinfo sol_macros plain_chunkid no_funcname info_state ''S?lutnr''
      stale_ar (Some (LClosure named_proto 2)) (Some 0) =
     map_option (\<lambda>(s, a). (if list_all recognized ''S?lutnr'' then 1 else 0, a))
       (auxgetinfo sol_macros plain_chunkid no_funcname info_state
          (filter recognized ''S?lutnr'') stale_ar (Some (LClosure named_proto 2)) (Some 0))"
    by (rule conjunct1)
  then have a: "auxgetinfo sol_macros plain_chunkid no_funcname info_state ''S?lutnr''
      stale_ar (Some (LClosure named_proto 2)) (Some 0) = Some (0, filled_ar)"
    by (simp only: recognized_sample auxgetinfo_sample) simp
  from t recognized_sample(3)
  have b: "auxgetinfo_switch sol_macros plain_chunkid no_funcname info_state CHR ''?''
      stale_ar (Some (LClosure named_proto 2)) (Some 0) = Some (False, stale_ar)"
    by blast
  have c: "sol_getinfo sol_macros plain_chunkid no_funcname info_state ''S?lutnr'' stale_ar
       = Some (0, filled_ar, info_state)"
    by (simp add: sol_getinfo_def getinfo_frame ttisclosure_def clvalue_def Let_def a)
  from a b c show ?thesis by blast
qed

text \<open>
  C8 as stated fails for \<^verbatim>\<open>sol_getinfo\<close>: the string \<open>>u\<close> contains the character \<open>>\<close>,
  which is outside the recognized set, and \<^verbatim>\<open>sol_getinfo\<close> reports success (status 1)
  for the function on top of the stack.
\<close>

theorem getinfo_counterexample:
  "sol_getinfo sol_macros plain_chunkid no_funcname info_state ''>u'' stale_ar
     = Some (1, stale_ar\<lparr>ar_nups := 2, ar_isvararg := False, ar_nparams := 1\<rparr>,
             info_state\<lparr>L_top := 7\<rparr>)
   \<and> \<not> list_all recognized ''>u''"
  by (simp add: sol_getinfo_def getinfo_frame ttisclosure_def clvalue_def auxgetinfo_def
      auxgetinfo_switch_def Let_def nupvalues_def named_fields recognized_def
      info_state_def)

subsection \<open>Hooks\<close>



text \<open>
  The mask is stored through \<^verbatim>\<open>cast_byte\<close>: of an \<^verbatim>\<open>int\<close> outside the range of a byte
  only the low eight bits are kept.
\<close>

lemma sethook_stored_mask:
  "hookmask (sol_sethook L (Some f) hmask count) = cast_byte hmask"
  by (simp add: sol_sethook_def Let_def resethookcount_def cast_byte_def)

lemma sethook_off:
  "func0 = None \<or> hmask = 0 \<Longrightarrow>
   hook (sol_sethook L func0 hmask count) = None \<and> hookmask (sol_sethook L func0 hmask count) = 0"
  by (auto simp: sol_sethook_def Let_def resethookcount_def cast_byte_def)

end
